theory Spec2Isabelle
  imports Main "HOL-Library.Word"
begin

unbundle bit_operations_syntax

section \<open>Bytes, slices and errors\<close>

text \<open>
  A Go \<^verbatim>\<open>[]byte\<close> is a list of 8-bit words. Go's \<^verbatim>\<open>int\<close> lengths and
  loop counters are natural numbers here: every one of them is bounded by the length of a
  slice held in memory, so \<^verbatim>\<open>6*n\<close> and \<^verbatim>\<open>(n+1)*8\<close> do not wrap around in 64 bits.
\<close>

type_synonym byte = "8 word"

text \<open>
  Modelled from the spec: the package \<^verbatim>\<open>jwa\<close>, which declares the algorithm identifiers,
  is not among the sources. The spec (section 3) gives the key-encryption algorithms as a
  closed enumeration of twelve identifiers, and names the content-encryption algorithms
  that only decide the length of the CEK. How an identifier is printed
  (\<^verbatim>\<open>String()\<close>) is a parameter of the model below.
\<close>

datatype KeyEncryptionAlgorithm =
    DIR | A128KW | A192KW | A256KW
  | ECDH_ES | ECDH_ES_A128KW | ECDH_ES_A192KW | ECDH_ES_A256KW
  | ECMR | RSA1_5 | RSA_OAEP | RSA_OAEP_256

datatype ContentEncryptionAlgorithm =
    A128CBC_HS256 | A192CBC_HS384 | A256CBC_HS512 | A128GCM | A192GCM | A256GCM

text \<open>
  Every place of \<^verbatim>\<open>keyenc.go\<close> and \<^verbatim>\<open>ecdsa.go\<close> that returns an error or panics
  is one constructor of \<open>error\<close>; the comment gives the message of the source.
\<close>

datatype error =
    KeywrapInputNotBlocks        \<comment> \<open>Wrap: \<^verbatim>\<open>keywrap input must be 8 byte blocks\<close>\<close>
  | KeyunwrapInputNotBlocks      \<comment> \<open>Unwrap: \<^verbatim>\<open>keyunwrap input must be %d byte blocks\<close>\<close>
  | KeyUnwrapFailed              \<comment> \<open>Unwrap: \<^verbatim>\<open>key unwrap: failed to unwrap key\<close>\<close>
  | MakesliceLenOutOfRange       \<comment> \<open>run-time panic of \<^verbatim>\<open>make\<close> with a negative length\<close>
  | FixedSizeBufferPanic         \<comment> \<open>newFixedSizeBuffer: \<^verbatim>\<open>panic("... (len(data) > length)")\<close>\<close>
  | InvalidECDHESAlgorithm KeyEncryptionAlgorithm
                                 \<comment> \<open>\<^verbatim>\<open>invalid ECDH-ES key wrap algorithm (%s)\<close>\<close>
  | ContentCipherFailed ContentEncryptionAlgorithm
                                 \<comment> \<open>\<^verbatim>\<open>failed to create content cipher for %s\<close>\<close>
  | PublicKeyNotOnCurve          \<comment> \<open>\<^verbatim>\<open>public key must be on the same curve as private key\<close>\<close>
  | KdfReadFailed                \<comment> \<open>\<^verbatim>\<open>failed to read kdf\<close>\<close>
  | DeriveECDHESFailed error     \<comment> \<open>\<^verbatim>\<open>failed to derive ECDHES encryption key\<close>, wrapping the cause\<close>
  | NewCipherFailed              \<comment> \<open>\<^verbatim>\<open>failed to create cipher for ECDH-ES key wrap\<close>\<close>
  | GenerateKeyFailed string     \<comment> \<open>the error of \<^verbatim>\<open>ecdsa.GenerateKey\<close>, returned as it is\<close>
  | ExchangeFailed string        \<comment> \<open>\<^verbatim>\<open>failed to exchange public key\<close>, wrapping the error of \<^verbatim>\<open>exchFn\<close>\<close>
  | CurveTypeMismatch            \<comment> \<open>\<^verbatim>\<open>expect EC curve type %v, got %v\<close>\<close>
  | ServerKeyNotOnCurve          \<comment> \<open>\<^verbatim>\<open>server key is not on the curve %v\<close>\<close>
  | InvalidRSAOAEPEncryptAlgorithm KeyEncryptionAlgorithm
                                 \<comment> \<open>\<^verbatim>\<open>invalid RSA OAEP encrypt algorithm (%s)\<close>\<close>
  | InvalidRSAOAEPDecryptAlgorithm KeyEncryptionAlgorithm
                                 \<comment> \<open>\<^verbatim>\<open>invalid RSA OAEP decrypt algorithm (%s)\<close>\<close>
  | InvalidRSAPKCSEncryptAlgorithm KeyEncryptionAlgorithm
                                 \<comment> \<open>\<^verbatim>\<open>invalid RSA PKCS encrypt algorithm (%s)\<close>\<close>
  | InputSizeIncorrect nat nat   \<comment> \<open>\<^verbatim>\<open>input size for key decrypt is incorrect (expected %d, got %d)\<close>\<close>
  | FailedToGenerateKey          \<comment> \<open>\<^verbatim>\<open>failed to generate key\<close>\<close>
  | DecryptPKCS1v15Failed        \<comment> \<open>\<^verbatim>\<open>failed to decrypt via PKCS1v15\<close>\<close>

text \<open>
  The builtin \<^verbatim>\<open>copy(dst, src)\<close> overwrites the first \<^verbatim>\<open>min(len(dst), len(src))\<close>
  elements of \<^verbatim>\<open>dst\<close>; the length of \<^verbatim>\<open>dst\<close> does not change.
  \<open>copy_at off dst src\<close> is \<^verbatim>\<open>copy(dst[off:], src)\<close> seen from \<^verbatim>\<open>dst\<close>.
\<close>

definition copy_bytes :: "byte list \<Rightarrow> byte list \<Rightarrow> byte list" where
  "copy_bytes dst src = take (length dst) src @ drop (length src) dst"

definition copy_at :: "nat \<Rightarrow> byte list \<Rightarrow> byte list \<Rightarrow> byte list" where
  "copy_at off dst src = take off dst @ copy_bytes (drop off dst) src"

text \<open>\<^verbatim>\<open>make([]byte, n)\<close>: \<open>n\<close> zero bytes.\<close>

definition make_bytes :: "nat \<Rightarrow> byte list" where
  "make_bytes n = replicate n 0"

text \<open>
  \<^verbatim>\<open>binary.BigEndian.PutUint64(b, v)\<close> on an 8-byte slice \<^verbatim>\<open>b\<close>:
  \<^verbatim>\<open>b[0] = byte(v >> 56)\<close>, ..., \<^verbatim>\<open>b[7] = byte(v)\<close>.
\<close>

definition PutUint64 :: "byte list \<Rightarrow> 64 word \<Rightarrow> byte list" where
  "PutUint64 b v = copy_bytes b
     [ucast (drop_bit 56 v), ucast (drop_bit 48 v), ucast (drop_bit 40 v),
      ucast (drop_bit 32 v), ucast (drop_bit 24 v), ucast (drop_bit 16 v),
      ucast (drop_bit 8 v), ucast v]"

text \<open>
  \<^verbatim>\<open>subtle.ConstantTimeCompare(x, y)\<close> of the Go library: 1 when the two slices
  have equal contents, 0 otherwise (also when the lengths differ).
\<close>

definition ConstantTimeCompare :: "byte list \<Rightarrow> byte list \<Rightarrow> nat" where
  "ConstantTimeCompare x y = (if x = y then 1 else 0)"

section \<open>AES key wrap (keyenc.go, Wrap and Unwrap)\<close>

text \<open>
  \<^verbatim>\<open>cipher.Block\<close> is an interface: \<^verbatim>\<open>Encrypt(dst, src)\<close> and \<^verbatim>\<open>Decrypt(dst, src)\<close>
  write one block into \<^verbatim>\<open>dst\<close>. The key wrap calls both with \<^verbatim>\<open>dst = src = buffer\<close>,
  a slice of 16 bytes, so a cipher is the pair of functions that give the block written
  for the block read. The call \<^verbatim>\<open>kek.Encrypt(buffer, buffer)\<close> is
  \<open>copy_bytes buffer (Encrypt kek buffer)\<close>: the slice keeps its length.
\<close>

record Block =
  Encrypt :: "byte list \<Rightarrow> byte list"
  Decrypt :: "byte list \<Rightarrow> byte list"

definition keywrapDefaultIV :: "byte list" where
  "keywrapDefaultIV = [0xa6, 0xa6, 0xa6, 0xa6, 0xa6, 0xa6, 0xa6, 0xa6]"

definition keywrapChunkLen :: nat where
  "keywrapChunkLen = 8"

text \<open>
  The loop \<^verbatim>\<open>for i := 0; i < keywrapChunkLen; i++ { buffer[i] = buffer[i] ^ tBytes[i] }\<close>
  of both Wrap and Unwrap.
\<close>

definition xor_tBytes :: "byte list \<Rightarrow> byte list \<Rightarrow> byte list" where
  "xor_tBytes buffer tBytes =
     fold (\<lambda>i b. b[i := (b ! i) XOR (tBytes ! i)]) [0..<keywrapChunkLen] buffer"

text \<open>
  The loops that cut the input into the chunks \<^verbatim>\<open>r[i]\<close>:
  \<^verbatim>\<open>r[i] = make([]byte, keywrapChunkLen); copy(r[i], src[(i+base)*keywrapChunkLen:])\<close>,
  with \<open>base = 0\<close> in Wrap and \<open>base = 1\<close> in Unwrap.
\<close>

definition split_chunks :: "nat \<Rightarrow> nat \<Rightarrow> byte list \<Rightarrow> byte list list" where
  "split_chunks base n src =
     map (\<lambda>i. copy_bytes (make_bytes keywrapChunkLen) (drop ((i + base) * keywrapChunkLen) src))
       [0..<n]"

text \<open>
  The loops that write the chunks to the output:
  \<^verbatim>\<open>for i := range r { copy(out[(i+base)*8:], r[i]) }\<close>,
  with \<open>base = 1\<close> in Wrap and \<open>base = 0\<close> in Unwrap.
\<close>

definition join_chunks :: "nat \<Rightarrow> byte list list \<Rightarrow> byte list \<Rightarrow> byte list" where
  "join_chunks base r out =
     fold (\<lambda>i out. copy_at ((i + base) * keywrapChunkLen) out (r ! i)) [0..<length r] out"

text \<open>
  One round of the loop of Wrap, for the counter \<open>t\<close>, on the state \<open>(buffer, r)\<close>.
  \<^verbatim>\<open>tBytes\<close> is overwritten in full by every round, so it is not part of the state.
\<close>

definition Wrap_round :: "Block \<Rightarrow> nat \<Rightarrow> nat \<Rightarrow> byte list \<times> byte list list \<Rightarrow> byte list \<times> byte list list" where
  "Wrap_round kek n t s =
     (case s of (buffer, r) \<Rightarrow>
        let buffer = copy_at keywrapChunkLen buffer (r ! (t mod n));
            buffer = copy_bytes buffer (Encrypt kek buffer);
            tBytes = PutUint64 (make_bytes keywrapChunkLen) (word_of_nat (t + 1));
            buffer = xor_tBytes buffer tBytes;
            r = r[t mod n := copy_bytes (r ! (t mod n)) (drop keywrapChunkLen buffer)]
        in (buffer, r))"

text \<open>The loop \<^verbatim>\<open>for t := 0; t < 6*n; t++\<close> of Wrap.\<close>

definition Wrap_loop :: "Block \<Rightarrow> nat \<Rightarrow> byte list \<times> byte list list \<Rightarrow> byte list \<times> byte list list" where
  "Wrap_loop kek n s = fold (Wrap_round kek n) [0..<6 * n] s"

definition Wrap :: "Block \<Rightarrow> byte list \<Rightarrow> error + byte list" where
  "Wrap kek cek =
     (if length cek mod 8 \<noteq> 0 then Inl KeywrapInputNotBlocks
      else
        let n = length cek div keywrapChunkLen;
            r = split_chunks 0 n cek;
            buffer = copy_bytes (make_bytes (keywrapChunkLen * 2)) keywrapDefaultIV;
            (buffer, r) = Wrap_loop kek n (buffer, r);
            out = copy_bytes (make_bytes ((n + 1) * keywrapChunkLen)) (take keywrapChunkLen buffer);
            out = join_chunks 1 r out
        in Inr out)"

text \<open>One round of the loop of Unwrap, which counts \<open>t\<close> down from \<open>6*n - 1\<close> to 0.\<close>

definition Unwrap_round :: "Block \<Rightarrow> nat \<Rightarrow> nat \<Rightarrow> byte list \<times> byte list list \<Rightarrow> byte list \<times> byte list list" where
  "Unwrap_round block n t s =
     (case s of (buffer, r) \<Rightarrow>
        let tBytes = PutUint64 (make_bytes keywrapChunkLen) (word_of_nat (t + 1));
            buffer = xor_tBytes buffer tBytes;
            buffer = copy_at keywrapChunkLen buffer (r ! (t mod n));
            buffer = copy_bytes buffer (Decrypt block buffer);
            r = r[t mod n := copy_bytes (r ! (t mod n)) (drop keywrapChunkLen buffer)]
        in (buffer, r))"

text \<open>The loop \<^verbatim>\<open>for t := 6*n - 1; t >= 0; t--\<close> of Unwrap.\<close>

definition Unwrap_loop :: "Block \<Rightarrow> nat \<Rightarrow> byte list \<times> byte list list \<Rightarrow> byte list \<times> byte list list" where
  "Unwrap_loop block n s = fold (Unwrap_round block n) (rev [0..<6 * n]) s"

text \<open>
  \<^verbatim>\<open>n := (len(ciphertxt) / keywrapChunkLen) - 1\<close> is \<open>-1\<close> for the empty input, and
  \<^verbatim>\<open>make([][]byte, n)\<close> then panics; nothing recovers from it.
\<close>

definition Unwrap :: "Block \<Rightarrow> byte list \<Rightarrow> error + byte list" where
  "Unwrap block ciphertxt =
     (if length ciphertxt mod keywrapChunkLen \<noteq> 0 then Inl KeyunwrapInputNotBlocks
      else if int (length ciphertxt div keywrapChunkLen) - 1 < 0 then Inl MakesliceLenOutOfRange
      else
        let n = length ciphertxt div keywrapChunkLen - 1;
            r = split_chunks 1 n ciphertxt;
            buffer = make_bytes (keywrapChunkLen * 2);
            buffer = copy_bytes (take keywrapChunkLen buffer) (take keywrapChunkLen ciphertxt)
                       @ drop keywrapChunkLen buffer;
            (buffer, r) = Unwrap_loop block n (buffer, r)
        in if ConstantTimeCompare (take keywrapChunkLen buffer) keywrapDefaultIV = 0
           then Inl KeyUnwrapFailed
           else Inr (join_chunks 0 r (make_bytes (n * keywrapChunkLen))))"

text \<open>
  A block cipher on 16-byte blocks: both directions give a 16-byte block, and decryption
  undoes encryption.
\<close>

definition block_cipher :: "Block \<Rightarrow> bool" where
  "block_cipher k \<longleftrightarrow>
     (\<forall>b. length b = 16 \<longrightarrow> length (Encrypt k b) = 16 \<and> Decrypt k (Encrypt k b) = b)"

text \<open>A small cipher to run the key wrap on: reverse the block and add one to each byte.\<close>

definition toy_cipher :: Block where
  "toy_cipher = \<lparr> Encrypt = (\<lambda>b. map (\<lambda>x. x + 1) (rev b)),
                  Decrypt = (\<lambda>b. rev (map (\<lambda>x. x - 1) b)) \<rparr>"

text \<open>
  The part of a key-wrap state that one round hands to the next: a buffer of 16 bytes and
  \<open>n\<close> chunks of 8 bytes; and the part that Unwrap reads back from the output of Wrap:
  the first half of the buffer and the chunks.
\<close>

definition wf_state :: "nat \<Rightarrow> byte list \<times> byte list list \<Rightarrow> bool" where
  "wf_state n s \<longleftrightarrow>
     length (fst s) = 2 * keywrapChunkLen \<and> length (snd s) = n \<and>
     list_all (\<lambda>x. length x = keywrapChunkLen) (snd s)"

definition same_AR :: "byte list \<times> byte list list \<Rightarrow> byte list \<times> byte list list \<Rightarrow> bool" where
  "same_AR s s' \<longleftrightarrow>
     take keywrapChunkLen (fst s) = take keywrapChunkLen (fst s') \<and> snd s = snd s'"

text \<open>The state with which the loop of Wrap starts, and the one with which it ends.\<close>

definition Wrap_initial :: "byte list \<Rightarrow> byte list \<times> byte list list" where
  "Wrap_initial cek =
     (copy_bytes (make_bytes (keywrapChunkLen * 2)) keywrapDefaultIV,
      split_chunks 0 (length cek div keywrapChunkLen) cek)"

definition Wrap_final :: "Block \<Rightarrow> byte list \<Rightarrow> byte list \<times> byte list list" where
  "Wrap_final kek cek = Wrap_loop kek (length cek div keywrapChunkLen) (Wrap_initial cek)"

section \<open>The fixed-width coordinate codec (ecdsa.go)\<close>

text \<open>
  \<^verbatim>\<open>big.Int.Bytes()\<close> of the Go library gives the big-endian bytes of the absolute value,
  without leading zeros (none at all for 0); \<^verbatim>\<open>big.Int.SetBytes(buf)\<close> reads a
  big-endian unsigned integer. \<^verbatim>\<open>buildECDSAPublicKey\<close> decodes a coordinate with
  \<^verbatim>\<open>SetBytes\<close>.
\<close>

fun nat_Bytes :: "nat \<Rightarrow> byte list" where
  "nat_Bytes n = (if n = 0 then [] else nat_Bytes (n div 256) @ [word_of_nat (n mod 256)])"

declare nat_Bytes.simps [simp del]

definition big_Bytes :: "int \<Rightarrow> byte list" where
  "big_Bytes x = nat_Bytes (nat \<bar>x\<bar>)"

definition big_SetBytes :: "byte list \<Rightarrow> int" where
  "big_SetBytes buf = int (foldl (\<lambda>acc b. acc * 256 + unat b) 0 buf)"

text \<open>
  \<^verbatim>\<open>elliptic.CurveParams\<close>, what \<^verbatim>\<open>Params()\<close> of a curve returns: the sources read
  \<^verbatim>\<open>BitSize\<close> and \<^verbatim>\<open>Name\<close>. \<open>curveSize\<close> takes the parameters of its curve.
\<close>

record CurveParams =
  BitSize :: nat
  Name :: string

definition curveSize :: "CurveParams \<Rightarrow> nat" where
  "curveSize crv =
     (let bits = BitSize crv;
          div' = bits div 8;
          mod' = bits mod 8
      in if mod' = 0 then div' else div' + 1)"

definition newFixedSizeBuffer :: "byte list \<Rightarrow> nat \<Rightarrow> error + byte list" where
  "newFixedSizeBuffer data len =
     (if length data > len then Inl FixedSizeBufferPanic
      else let pad = make_bytes (len - length data) in Inr (pad @ data))"

definition P256 :: CurveParams where
  "P256 = \<lparr> BitSize = 256, Name = ''P-256'' \<rparr>"

definition P521 :: CurveParams where
  "P521 = \<lparr> BitSize = 521, Name = ''P-521'' \<rparr>"

text \<open>
  An \<^verbatim>\<open>elliptic.Curve\<close> is an interface value, and \<^verbatim>\<open>!=\<close> on two of them compares
  the values themselves (for the curves of the Go library, pointers), not the parameters
  they give. A curve is therefore a reference together with the parameters that
  \<^verbatim>\<open>Params()\<close> returns: two curves with the same parameters and different references
  are different values, as two Go values with equal parameters are.
\<close>

record elliptic_Curve =
  curve_ref :: nat
  Params :: CurveParams

definition curve_P256 :: elliptic_Curve where
  "curve_P256 = \<lparr> curve_ref = 256, Params = P256 \<rparr>"

definition curve_P521 :: elliptic_Curve where
  "curve_P521 = \<lparr> curve_ref = 521, Params = P521 \<rparr>"

section \<open>ECDH-ES and ECMR (keyenc.go)\<close>

record ecdsa_PublicKey =
  Curve :: elliptic_Curve
  X :: int
  Y :: int

record ecdsa_PrivateKey = ecdsa_PublicKey +
  D :: int

text \<open>
  What the key-agreement code calls outside the sources, as parameters of the model:
  \<^item> \<open>keyalg_String\<close>, \<open>contentalg_String\<close>: \<^verbatim>\<open>[]byte(alg.String())\<close> of package \<^verbatim>\<open>jwa\<close>;
  \<^item> \<open>contentcipher_KeySize\<close>: \<^verbatim>\<open>contentcipher.NewAES(alg)\<close> followed by \<^verbatim>\<open>KeySize()\<close>,
    \<open>None\<close> when \<^verbatim>\<open>NewAES\<close> returns an error;
  \<^item> \<open>aes_NewCipher\<close>: \<^verbatim>\<open>aes.NewCipher(key)\<close>, \<open>None\<close> when it returns an error;
  \<^item> \<open>IsOnCurve\<close>, \<open>ScalarMult\<close>, \<open>Add\<close>: the methods of \<^verbatim>\<open>elliptic.Curve\<close>;
  \<^item> \<open>GenerateKey\<close>: \<^verbatim>\<open>ecdsa.GenerateKey(curve, rand.Reader)\<close>;
  \<^item> \<open>AllocECPointBuffer\<close>: \<^verbatim>\<open>ecutil.AllocECPointBuffer(z, curve)\<close>;
  \<^item> \<open>concatkdf\<close>: \<^verbatim>\<open>concatkdf.New(crypto.SHA256, alg, z, apu, apv, pubinfo, privinfo)\<close>
    followed by \<^verbatim>\<open>Read(key)\<close> on a key of the given length; \<open>None\<close> when \<^verbatim>\<open>Read\<close>
    returns an error, otherwise the bytes read.
\<close>

record collaborators =
  keyalg_String :: "KeyEncryptionAlgorithm \<Rightarrow> byte list"
  contentalg_String :: "ContentEncryptionAlgorithm \<Rightarrow> byte list"
  contentcipher_KeySize :: "ContentEncryptionAlgorithm \<Rightarrow> nat option"
  aes_NewCipher :: "byte list \<Rightarrow> Block option"
  IsOnCurve :: "elliptic_Curve \<Rightarrow> int \<Rightarrow> int \<Rightarrow> bool"
  ScalarMult :: "elliptic_Curve \<Rightarrow> int \<Rightarrow> int \<Rightarrow> byte list \<Rightarrow> int \<times> int"
  Add :: "elliptic_Curve \<Rightarrow> int \<Rightarrow> int \<Rightarrow> int \<Rightarrow> int \<Rightarrow> int \<times> int"
  GenerateKey :: "elliptic_Curve \<Rightarrow> string + ecdsa_PrivateKey"
  AllocECPointBuffer :: "int \<Rightarrow> elliptic_Curve \<Rightarrow> byte list"
  concatkdf :: "byte list \<Rightarrow> byte list \<Rightarrow> byte list \<Rightarrow> byte list \<Rightarrow> byte list
                  \<Rightarrow> byte list \<Rightarrow> nat \<Rightarrow> byte list option"

text \<open>\<^verbatim>\<open>binary.BigEndian.PutUint32(b, v)\<close> on a 4-byte slice.\<close>

definition PutUint32 :: "byte list \<Rightarrow> 32 word \<Rightarrow> byte list" where
  "PutUint32 b v = copy_bytes b
     [ucast (drop_bit 24 v), ucast (drop_bit 16 v), ucast (drop_bit 8 v), ucast v]"

text \<open>
  \<^verbatim>\<open>keysize\<close> is a \<^verbatim>\<open>uint32\<close>: \<^verbatim>\<open>keysize*8\<close> wraps around, and \<^verbatim>\<open>make([]byte, keysize)\<close>
  has \<open>unat keysize\<close> bytes, which \<^verbatim>\<open>kdf.Read(key)\<close> fills.
\<close>

definition DeriveECDHES ::
  "collaborators \<Rightarrow> byte list \<Rightarrow> byte list \<Rightarrow> byte list \<Rightarrow> ecdsa_PrivateKey \<Rightarrow> ecdsa_PublicKey
     \<Rightarrow> 32 word \<Rightarrow> error + byte list" where
  "DeriveECDHES env alg apu apv privkey pubkey keysize =
     (let pubinfo = PutUint32 (make_bytes 4) (keysize * 8)
      in if \<not> IsOnCurve env (Curve privkey) (X pubkey) (Y pubkey) then Inl PublicKeyNotOnCurve
         else
           let (z, _) = ScalarMult env (Curve privkey) (X pubkey) (Y pubkey) (big_Bytes (D privkey));
               zBytes = AllocECPointBuffer env z (Curve privkey);
               key = make_bytes (unat keysize)
           in case concatkdf env alg zBytes apu apv pubinfo [] (unat keysize) of
                None \<Rightarrow> Inl KdfReadFailed
              | Some k \<Rightarrow> Inr (copy_bytes key k))"

record ECDHESDecrypt =
  kw_keyalg :: KeyEncryptionAlgorithm
  kw_contentalg :: ContentEncryptionAlgorithm
  kw_apu :: "byte list"
  kw_apv :: "byte list"
  kw_privkey :: ecdsa_PrivateKey
  kw_pubkey :: ecdsa_PublicKey

definition NewECDHESDecrypt ::
  "KeyEncryptionAlgorithm \<Rightarrow> ContentEncryptionAlgorithm \<Rightarrow> ecdsa_PublicKey \<Rightarrow> byte list \<Rightarrow> byte list
     \<Rightarrow> ecdsa_PrivateKey \<Rightarrow> ECDHESDecrypt" where
  "NewECDHESDecrypt ka ca pub u v priv =
     \<lparr> kw_keyalg = ka, kw_contentalg = ca, kw_apu = u, kw_apv = v,
       kw_privkey = priv, kw_pubkey = pub \<rparr>"

text \<open>
  The \<^verbatim>\<open>switch kw.keyalg\<close> of \<^verbatim>\<open>ECDHESDecrypt.Decrypt\<close>: the key size and the
  \<^verbatim>\<open>algBytes\<close> it chooses, or the error it returns.
\<close>

definition ECDHES_select ::
  "collaborators \<Rightarrow> ECDHESDecrypt \<Rightarrow> error + (32 word \<times> byte list)" where
  "ECDHES_select env kw =
     (let algBytes = keyalg_String env (kw_keyalg kw)
      in case kw_keyalg kw of
           ECDH_ES \<Rightarrow>
             (case contentcipher_KeySize env (kw_contentalg kw) of
                None \<Rightarrow> Inl (ContentCipherFailed (kw_contentalg kw))
              | Some ks \<Rightarrow> Inr (word_of_nat ks, contentalg_String env (kw_contentalg kw)))
         | ECDH_ES_A128KW \<Rightarrow> Inr (16, algBytes)
         | ECDH_ES_A192KW \<Rightarrow> Inr (24, algBytes)
         | ECDH_ES_A256KW \<Rightarrow> Inr (32, algBytes)
         | _ \<Rightarrow> Inl (InvalidECDHESAlgorithm (kw_keyalg kw)))"

definition ECDHESDecrypt_Decrypt ::
  "collaborators \<Rightarrow> ECDHESDecrypt \<Rightarrow> byte list \<Rightarrow> error + byte list" where
  "ECDHESDecrypt_Decrypt env kw enckey =
     (case ECDHES_select env kw of
        Inl e \<Rightarrow> Inl e
      | Inr (keysize, algBytes) \<Rightarrow>
          (case DeriveECDHES env algBytes (kw_apu kw) (kw_apv kw) (kw_privkey kw) (kw_pubkey kw) keysize of
             Inl e \<Rightarrow> Inl (DeriveECDHESFailed e)
           | Inr key \<Rightarrow>
               if kw_keyalg kw = ECDH_ES then Inr key
               else (case aes_NewCipher env key of
                       None \<Rightarrow> Inl NewCipherFailed
                     | Some block \<Rightarrow> Unwrap block enckey)))"

text \<open>
  \<^verbatim>\<open>ECMRExchangeFunc\<close>: the exchange function returns two public keys or an error.
\<close>

type_synonym ECMRExchangeFunc = "ecdsa_PublicKey \<Rightarrow> string + (ecdsa_PublicKey \<times> ecdsa_PublicKey)"

definition DeriveECMR ::
  "collaborators \<Rightarrow> byte list \<Rightarrow> byte list \<Rightarrow> byte list \<Rightarrow> ECMRExchangeFunc \<Rightarrow> ecdsa_PublicKey
     \<Rightarrow> 32 word \<Rightarrow> error + byte list" where
  "DeriveECMR env alg apu apv exchFn pubkey keysize =
     (let pubinfo = PutUint32 (make_bytes 4) (keysize * 8);
          ecCurve = Curve pubkey
      in case GenerateKey env ecCurve of
           Inl err \<Rightarrow> Inl (GenerateKeyFailed err)
         | Inr tempKey \<Rightarrow>
             let (x, y) = Add env ecCurve (X tempKey) (Y tempKey) (X pubkey) (Y pubkey);
                 xfrKey = \<lparr> Curve = ecCurve, X = x, Y = y \<rparr>
             in case exchFn xfrKey of
                  Inl err \<Rightarrow> Inl (ExchangeFailed err)
                | Inr (respKey, srvKey) \<Rightarrow>
                    if Curve respKey \<noteq> ecCurve then Inl CurveTypeMismatch
                    else if \<not> IsOnCurve env ecCurve (X srvKey) (Y srvKey) then Inl ServerKeyNotOnCurve
                    else
                      let (x, y) = ScalarMult env ecCurve (X srvKey) (Y srvKey) (big_Bytes (D tempKey));
                          (z, _) = Add env ecCurve (X respKey) (Y respKey) x (- y);
                          zBytes = AllocECPointBuffer env z ecCurve;
                          key = make_bytes (unat keysize)
                      in case concatkdf env alg zBytes apu apv pubinfo [] (unat keysize) of
                           None \<Rightarrow> Inl KdfReadFailed
                         | Some k \<Rightarrow> Inr (copy_bytes key k))"

text \<open>
  The blinded key that \<^verbatim>\<open>DeriveECMR\<close> hands to the exchange function, and the key it
  derives once the three checks have passed.
\<close>

definition ECMR_xfrKey :: "collaborators \<Rightarrow> ecdsa_PrivateKey \<Rightarrow> ecdsa_PublicKey \<Rightarrow> ecdsa_PublicKey" where
  "ECMR_xfrKey env tempKey pubkey =
     (let (x, y) = Add env (Curve pubkey) (X tempKey) (Y tempKey) (X pubkey) (Y pubkey)
      in \<lparr> Curve = Curve pubkey, X = x, Y = y \<rparr>)"

definition ECMR_kdf ::
  "collaborators \<Rightarrow> byte list \<Rightarrow> byte list \<Rightarrow> byte list \<Rightarrow> ecdsa_PrivateKey \<Rightarrow> ecdsa_PublicKey
     \<Rightarrow> ecdsa_PublicKey \<Rightarrow> ecdsa_PublicKey \<Rightarrow> 32 word \<Rightarrow> byte list option" where
  "ECMR_kdf env alg apu apv tempKey pubkey respKey srvKey keysize =
     (let (x, y) = ScalarMult env (Curve pubkey) (X srvKey) (Y srvKey) (big_Bytes (D tempKey));
          (z, _) = Add env (Curve pubkey) (X respKey) (Y respKey) x (- y)
      in concatkdf env alg (AllocECPointBuffer env z (Curve pubkey)) apu apv
           (PutUint32 (make_bytes 4) (keysize * 8)) [] (unat keysize))"

section \<open>RSA (keyenc.go)\<close>

record rsa_PublicKey =
  rsa_N :: nat
  rsa_E :: nat

record rsa_PrivateKey = rsa_PublicKey +
  rsa_D :: nat

text \<open>\<^verbatim>\<open>big.Int.BitLen()\<close>: the number of bits of the absolute value, 0 for 0.\<close>

fun BitLen :: "nat \<Rightarrow> nat" where
  "BitLen n = (if n = 0 then 0 else Suc (BitLen (n div 2)))"

declare BitLen.simps [simp del]

text \<open>
  Modelled from the spec: \<^verbatim>\<open>keygen.Random\<close> (package \<^verbatim>\<open>jwe/internal/keygen\<close>) is not
  among the sources. The spec has the decrypter pre-generate a random buffer of the length
  it was constructed with, from the process-wide random source. The random source is
  \<open>None\<close> when reading it fails, otherwise the stream of bytes it gives.
\<close>

record Random =
  random_keysize :: nat

definition NewRandom :: "nat \<Rightarrow> Random" where
  "NewRandom n = \<lparr> random_keysize = n \<rparr>"

type_synonym rand_Reader = "(nat \<Rightarrow> byte) option"

definition Random_Generate :: "rand_Reader \<Rightarrow> Random \<Rightarrow> string + byte list" where
  "Random_Generate rnd g =
     (case rnd of
        None \<Rightarrow> Inl ''failed to read from rand.Reader''
      | Some f \<Rightarrow> Inr (map f [0..<random_keysize g]))"

record RSAPKCS15Decrypt =
  pkcs15_alg :: KeyEncryptionAlgorithm
  pkcs15_privkey :: rsa_PrivateKey
  pkcs15_generator :: Random

definition NewRSAPKCS15Decrypt ::
  "KeyEncryptionAlgorithm \<Rightarrow> rsa_PrivateKey \<Rightarrow> nat \<Rightarrow> RSAPKCS15Decrypt" where
  "NewRSAPKCS15Decrypt alg priv ks =
     (let generator = NewRandom (ks * 2)
      in \<lparr> pkcs15_alg = alg, pkcs15_privkey = priv, pkcs15_generator = generator \<rparr>)"

text \<open>
  \<^verbatim>\<open>rsa.DecryptPKCS1v15SessionKey(rand.Reader, priv, ciphertext, key)\<close> of the Go library
  is a parameter of the model. A call ends in one of three ways: it returns an error; it
  panics (the index out of range of the Go releases before 1.3.1, which the deferred
  \<^verbatim>\<open>recover()\<close> of \<^verbatim>\<open>Decrypt\<close> is there for); or it returns \<^verbatim>\<open>nil\<close>, having written
  into \<^verbatim>\<open>key\<close> the session key when the padding is valid and nothing otherwise. The
  third outcome carries the bytes that \<^verbatim>\<open>key\<close> then holds. \<^verbatim>\<open>key\<close> is a slice passed by
  value, so its length stays what it was.
\<close>

datatype SessionKeyOutcome = ReturnsError | Panics | ReturnsNil "byte list"

type_synonym DecryptPKCS1v15SessionKey =
  "rsa_PrivateKey \<Rightarrow> byte list \<Rightarrow> byte list \<Rightarrow> SessionKeyOutcome"

text \<open>
  \<^verbatim>\<open>Decrypt\<close> returns \<^verbatim>\<open>([]byte, error)\<close>. \<open>Inl e\<close> is \<^verbatim>\<open>(nil, e)\<close>, \<open>Inr (Some cek)\<close>
  is \<^verbatim>\<open>(cek, nil)\<close>, and \<open>Inr None\<close> is \<^verbatim>\<open>(nil, nil)\<close>: when the primitive panics, the
  deferred function recovers, and the results, which have no names, keep their zero values.
\<close>

definition RSAPKCS15Decrypt_Decrypt ::
  "DecryptPKCS1v15SessionKey \<Rightarrow> rand_Reader \<Rightarrow> RSAPKCS15Decrypt \<Rightarrow> byte list
     \<Rightarrow> error + byte list option" where
  "RSAPKCS15Decrypt_Decrypt prim rnd d enckey =
     (let expectedlen = BitLen (rsa_N (pkcs15_privkey d)) div 8
      in if expectedlen \<noteq> length enckey
         then Inl (InputSizeIncorrect expectedlen (length enckey))
         else
           (case Random_Generate rnd (pkcs15_generator d) of
              Inl err \<Rightarrow> Inl FailedToGenerateKey
            | Inr bk \<Rightarrow>
                let cek = bk
                in (case prim (pkcs15_privkey d) enckey cek of
                      Panics \<Rightarrow> Inr None
                    | ReturnsError \<Rightarrow> Inl DecryptPKCS1v15Failed
                    | ReturnsNil key \<Rightarrow> Inr (Some (copy_bytes cek key)))))"

section \<open>Construction of the encrypters and decrypters (keyenc.go)\<close>

record AESCGM =
  aescgm_alg :: KeyEncryptionAlgorithm
  sharedkey :: "byte list"
  aescgm_keyID :: string

definition NewAESCGM :: "KeyEncryptionAlgorithm \<Rightarrow> byte list \<Rightarrow> error + AESCGM" where
  "NewAESCGM alg key = Inr \<lparr> aescgm_alg = alg, sharedkey = key, aescgm_keyID = [] \<rparr>"

record RSAOAEPEncrypt =
  oaep_enc_alg :: KeyEncryptionAlgorithm
  oaep_enc_pubkey :: rsa_PublicKey
  oaep_enc_keyID :: string

definition NewRSAOAEPEncrypt :: "KeyEncryptionAlgorithm \<Rightarrow> rsa_PublicKey \<Rightarrow> error + RSAOAEPEncrypt" where
  "NewRSAOAEPEncrypt alg pub =
     (case alg of
        RSA_OAEP \<Rightarrow> Inr \<lparr> oaep_enc_alg = alg, oaep_enc_pubkey = pub, oaep_enc_keyID = [] \<rparr>
      | RSA_OAEP_256 \<Rightarrow> Inr \<lparr> oaep_enc_alg = alg, oaep_enc_pubkey = pub, oaep_enc_keyID = [] \<rparr>
      | _ \<Rightarrow> Inl (InvalidRSAOAEPEncryptAlgorithm alg))"

record RSAPKCSEncrypt =
  pkcs_enc_alg :: KeyEncryptionAlgorithm
  pkcs_enc_pubkey :: rsa_PublicKey
  pkcs_enc_keyID :: string

definition NewRSAPKCSEncrypt :: "KeyEncryptionAlgorithm \<Rightarrow> rsa_PublicKey \<Rightarrow> error + RSAPKCSEncrypt" where
  "NewRSAPKCSEncrypt alg pub =
     (case alg of
        RSA1_5 \<Rightarrow> Inr \<lparr> pkcs_enc_alg = alg, pkcs_enc_pubkey = pub, pkcs_enc_keyID = [] \<rparr>
      | _ \<Rightarrow> Inl (InvalidRSAPKCSEncryptAlgorithm alg))"

record RSAOAEPDecrypt =
  oaep_dec_alg :: KeyEncryptionAlgorithm
  oaep_dec_privkey :: rsa_PrivateKey

definition NewRSAOAEPDecrypt :: "KeyEncryptionAlgorithm \<Rightarrow> rsa_PrivateKey \<Rightarrow> error + RSAOAEPDecrypt" where
  "NewRSAOAEPDecrypt alg priv =
     (case alg of
        RSA_OAEP \<Rightarrow> Inr \<lparr> oaep_dec_alg = alg, oaep_dec_privkey = priv \<rparr>
      | RSA_OAEP_256 \<Rightarrow> Inr \<lparr> oaep_dec_alg = alg, oaep_dec_privkey = priv \<rparr>
      | _ \<Rightarrow> Inl (InvalidRSAOAEPDecryptAlgorithm alg))"

section \<open>Stand-ins for the collaborators, to run the model on\<close>

text \<open>
  The code under study calls a cipher, a KDF, curve arithmetic, a random source, an RSA
  primitive and an exchange function. The definitions of this section are small
  stand-ins for them, used only to evaluate the model at concrete inputs.
\<close>

definition bytes_of :: "string \<Rightarrow> byte list" where
  "bytes_of s = map (\<lambda>c. word_of_nat (of_char c)) s"

definition keyed_toy_cipher :: "byte list \<Rightarrow> Block" where
  "keyed_toy_cipher key = \<lparr> Encrypt = (\<lambda>b. map (\<lambda>x. x + key ! 0) (rev b)),
                             Decrypt = (\<lambda>b. rev (map (\<lambda>x. x - key ! 0) b)) \<rparr>"

definition toy_keyalg_name :: "KeyEncryptionAlgorithm \<Rightarrow> string" where
  "toy_keyalg_name a =
     (case a of
        DIR \<Rightarrow> ''dir'' | A128KW \<Rightarrow> ''A128KW'' | A192KW \<Rightarrow> ''A192KW'' | A256KW \<Rightarrow> ''A256KW''
      | ECDH_ES \<Rightarrow> ''ECDH-ES'' | ECDH_ES_A128KW \<Rightarrow> ''ECDH-ES+A128KW''
      | ECDH_ES_A192KW \<Rightarrow> ''ECDH-ES+A192KW'' | ECDH_ES_A256KW \<Rightarrow> ''ECDH-ES+A256KW''
      | ECMR \<Rightarrow> ''ECMR'' | RSA1_5 \<Rightarrow> ''RSA1_5'' | RSA_OAEP \<Rightarrow> ''RSA-OAEP''
      | RSA_OAEP_256 \<Rightarrow> ''RSA-OAEP-256'')"

definition toy_contentalg_name :: "ContentEncryptionAlgorithm \<Rightarrow> string" where
  "toy_contentalg_name a =
     (case a of
        A128CBC_HS256 \<Rightarrow> ''A128CBC-HS256'' | A192CBC_HS384 \<Rightarrow> ''A192CBC-HS384''
      | A256CBC_HS512 \<Rightarrow> ''A256CBC-HS512'' | A128GCM \<Rightarrow> ''A128GCM''
      | A192GCM \<Rightarrow> ''A192GCM'' | A256GCM \<Rightarrow> ''A256GCM'')"

definition toy_KeySize :: "ContentEncryptionAlgorithm \<Rightarrow> nat option" where
  "toy_KeySize a =
     (case a of
        A128CBC_HS256 \<Rightarrow> Some 32 | A192CBC_HS384 \<Rightarrow> Some 48 | A256CBC_HS512 \<Rightarrow> Some 64
      | A128GCM \<Rightarrow> Some 16 | A192GCM \<Rightarrow> Some 24 | A256GCM \<Rightarrow> Some 32)"

text \<open>
  The toy "curve" is the parabola \<open>y = x\<^sup>2\<close> with coordinate-wise addition; the toy KDF
  gives the first bytes of \<open>alg\<close>, then of \<open>z\<close>, then zeros, so that its output shows
  which \<open>AlgorithmID\<close> it was called with.
\<close>

definition toy_env :: collaborators where
  "toy_env = \<lparr>
     keyalg_String = (\<lambda>a. bytes_of (toy_keyalg_name a)),
     contentalg_String = (\<lambda>a. bytes_of (toy_contentalg_name a)),
     contentcipher_KeySize = toy_KeySize,
     aes_NewCipher = (\<lambda>key. if length key = 16 \<or> length key = 24 \<or> length key = 32
                              then Some (keyed_toy_cipher key) else None),
     IsOnCurve = (\<lambda>crv x y. y = x * x),
     ScalarMult = (\<lambda>crv x y k. (x * big_SetBytes k, y * big_SetBytes k)),
     Add = (\<lambda>crv x1 y1 x2 y2. (x1 + x2, y1 + y2)),
     GenerateKey = (\<lambda>crv. Inr \<lparr> Curve = crv, X = 2, Y = 4, D = 3 \<rparr>),
     AllocECPointBuffer = (\<lambda>z crv. case newFixedSizeBuffer (big_Bytes z) (curveSize (Params crv)) of
                                       Inl e \<Rightarrow> [] | Inr buf \<Rightarrow> buf),
     concatkdf = (\<lambda>alg z u v pubinfo privinfo n. Some (take n (alg @ z @ replicate n 0))) \<rparr>"

definition toy_pubkey :: ecdsa_PublicKey where
  "toy_pubkey = \<lparr> Curve = curve_P256, X = 3, Y = 9 \<rparr>"

definition toy_privkey :: ecdsa_PrivateKey where
  "toy_privkey = \<lparr> Curve = curve_P256, X = 5, Y = 25, D = 7 \<rparr>"

definition exch_fails :: ECMRExchangeFunc where
  "exch_fails k = Inl ''connection refused''"

definition exch_other_curve :: ECMRExchangeFunc where
  "exch_other_curve k =
     Inr (\<lparr> Curve = curve_P521, X = 2, Y = 4 \<rparr>, \<lparr> Curve = Curve k, X = 2, Y = 4 \<rparr>)"

text \<open>
  An exchange function whose response key is on another curve value with the parameters
  of P-256, and whose server key is off the curve.
\<close>

definition another_P256 :: elliptic_Curve where
  "another_P256 = \<lparr> curve_ref = 0, Params = P256 \<rparr>"

definition exch_same_params :: ECMRExchangeFunc where
  "exch_same_params k =
     Inr (\<lparr> Curve = another_P256, X = 2, Y = 4 \<rparr>, \<lparr> Curve = Curve k, X = 2, Y = 5 \<rparr>)"

definition exch_off_curve :: ECMRExchangeFunc where
  "exch_off_curve k = Inr (\<lparr> Curve = Curve k, X = 2, Y = 4 \<rparr>, \<lparr> Curve = Curve k, X = 2, Y = 5 \<rparr>)"

definition exch_ok :: ECMRExchangeFunc where
  "exch_ok k = Inr (\<lparr> Curve = Curve k, X = 10, Y = 100 \<rparr>, \<lparr> Curve = Curve k, X = 2, Y = 4 \<rparr>)"

text \<open>
  A random source, two RSA keys whose moduli have 2048 and 2047 bits, and stand-ins for
  the RSA primitive. \<open>out_of_range_fails\<close> returns an error when the ciphertext, read as a
  big-endian integer, is not below the modulus, as the Go library does, and otherwise
  leaves the key as it is, as the Go library does on invalid padding.
  \<open>session_key_of\<close> writes a fixed byte into the whole key.
\<close>

definition toy_rand :: rand_Reader where
  "toy_rand = Some (\<lambda>i. word_of_nat (7 * i + 1))"

definition key_2048 :: rsa_PrivateKey where
  "key_2048 = \<lparr> rsa_N = 2 ^ 2047 + 1, rsa_E = 65537, rsa_D = 3 \<rparr>"

definition key_2047 :: rsa_PrivateKey where
  "key_2047 = \<lparr> rsa_N = 2 ^ 2046 + 1, rsa_E = 65537, rsa_D = 3 \<rparr>"

definition out_of_range_fails :: DecryptPKCS1v15SessionKey where
  "out_of_range_fails priv ciphertext key =
     (if int (rsa_N priv) \<le> big_SetBytes ciphertext then ReturnsError else ReturnsNil key)"

definition session_key_of :: "byte \<Rightarrow> DecryptPKCS1v15SessionKey" where
  "session_key_of v priv ciphertext key = ReturnsNil (replicate (length key) v)"

definition always_panics :: DecryptPKCS1v15SessionKey where
  "always_panics priv ciphertext key = Panics"

section \<open>Slices and key-wrap rounds: auxiliary facts\<close>


lemma length_copy_bytes [simp]: "length (copy_bytes dst src) = length dst"
  by (simp add: copy_bytes_def)

lemma copy_bytes_same_length: "length src = length dst \<Longrightarrow> copy_bytes dst src = src"
  by (simp add: copy_bytes_def)

lemma length_copy_at [simp]: "length (copy_at off dst src) = length dst"
  by (simp add: copy_at_def)

lemma copy_at_chunk:
  "length src = length dst - off \<Longrightarrow> copy_at off dst src = take off dst @ src"
  by (simp add: copy_at_def copy_bytes_same_length)

lemma fold_xor_upt:
  "k \<le> length b \<Longrightarrow>
   fold (\<lambda>i b. b[i := (b ! i) XOR (tb ! i)]) [0..<k] b =
   map (\<lambda>i. if i < k then (b ! i) XOR (tb ! i) else b ! i) [0..<length b]"
proof (induction k)
  case 0
  then show ?case by (simp add: map_nth)
next
  case (Suc k)
  then have IH: "fold (\<lambda>i b. b[i := (b ! i) XOR (tb ! i)]) [0..<k] b =
     map (\<lambda>i. if i < k then (b ! i) XOR (tb ! i) else b ! i) [0..<length b]" by simp
  show ?case
    unfolding upt_Suc_append[OF le0] fold_append o_apply fold_simps IH
    using Suc.prems by (auto intro!: nth_equalityI simp: nth_list_update less_Suc_eq)
qed

lemma xor_tBytes_map:
  "keywrapChunkLen \<le> length b \<Longrightarrow>
   xor_tBytes b tb = map (\<lambda>i. if i < keywrapChunkLen then (b ! i) XOR (tb ! i) else b ! i) [0..<length b]"
  unfolding xor_tBytes_def by (rule fold_xor_upt)

lemma length_fold_update:
  "length (fold (\<lambda>i b. b[i := f b i]) xs b) = length b"
  by (induction xs arbitrary: b) simp_all

lemma length_xor_tBytes [simp]: "length (xor_tBytes b tb) = length b"
  unfolding xor_tBytes_def by (rule length_fold_update)

lemma drop_xor_tBytes:
  "keywrapChunkLen \<le> length b \<Longrightarrow> drop keywrapChunkLen (xor_tBytes b tb) = drop keywrapChunkLen b"
  by (auto intro!: nth_equalityI simp: xor_tBytes_map)

lemma take_xor_tBytes_cong:
  assumes "keywrapChunkLen \<le> length b" "keywrapChunkLen \<le> length b'"
    and eq: "take keywrapChunkLen b = take keywrapChunkLen b'"
  shows "take keywrapChunkLen (xor_tBytes b tb) = take keywrapChunkLen (xor_tBytes b' tb)"
proof -
  have "b ! i = b' ! i" if "i < keywrapChunkLen" for i
    using that eq by (metis nth_take)
  with assms(1,2) show ?thesis
    by (auto intro!: nth_equalityI simp: xor_tBytes_map)
qed

lemma take_xor_tBytes_twice:
  "keywrapChunkLen \<le> length b \<Longrightarrow>
   take keywrapChunkLen (xor_tBytes (xor_tBytes b tb) tb) = take keywrapChunkLen b"
  by (auto intro!: nth_equalityI simp: xor_tBytes_map xor.assoc)

lemma length_PutUint64 [simp]: "length (PutUint64 b v) = length b"
  by (simp add: PutUint64_def)

lemma wf_state_nth:
  "wf_state n (b, r) \<Longrightarrow> j < n \<Longrightarrow> length (r ! j) = keywrapChunkLen"
  by (simp add: wf_state_def list_all_length)

lemma list_all_update:
  "list_all P xs \<Longrightarrow> P x \<Longrightarrow> list_all P (xs[j := x])"
  by (induction xs arbitrary: j) (auto split: nat.splits)

lemma wf_state_update:
  assumes "wf_state n (b, r)" "length b' = 2 * keywrapChunkLen" "length x = keywrapChunkLen"
  shows "wf_state n (b', r[j := x])"
  using assms by (simp add: wf_state_def list_all_update)

lemma Wrap_round_eq:
  assumes wf: "wf_state n (b, r)" and n: "0 < n"
    and b1: "b1 = take keywrapChunkLen b @ r ! (t mod n)"
    and B: "B = copy_bytes b1 (Encrypt kek b1)"
  shows "Wrap_round kek n t (b, r) =
           (xor_tBytes B (PutUint64 (make_bytes keywrapChunkLen) (word_of_nat (t + 1))),
            r[t mod n := drop keywrapChunkLen B])"
    and "length b1 = 2 * keywrapChunkLen" and "length B = 2 * keywrapChunkLen"
proof -
  have j: "t mod n < n" using n by simp
  have lb: "length b = 2 * keywrapChunkLen" using wf by (simp add: wf_state_def)
  have lj: "length (r ! (t mod n)) = keywrapChunkLen" by (rule wf_state_nth[OF wf j])
  have c1: "copy_at keywrapChunkLen b (r ! (t mod n)) = b1"
    unfolding b1 by (rule copy_at_chunk) (simp add: lb lj)
  show lb1: "length b1 = 2 * keywrapChunkLen" by (simp add: b1 lb lj)
  show lB: "length B = 2 * keywrapChunkLen" by (simp add: B lb1)
  have d: "drop keywrapChunkLen (xor_tBytes B tb) = drop keywrapChunkLen B" for tb
    by (rule drop_xor_tBytes) (simp add: lB)
  have c2: "copy_bytes (r ! (t mod n)) (drop keywrapChunkLen B) = drop keywrapChunkLen B"
    by (rule copy_bytes_same_length) (simp add: lB lj)
  show "Wrap_round kek n t (b, r) =
           (xor_tBytes B (PutUint64 (make_bytes keywrapChunkLen) (word_of_nat (t + 1))),
            r[t mod n := drop keywrapChunkLen B])"
    unfolding Wrap_round_def Let_def prod.case c1 B[symmetric] d c2 ..
qed

lemma Unwrap_round_eq:
  assumes wf: "wf_state n (b, r)" and n: "0 < n"
    and b1: "b1 = take keywrapChunkLen
                    (xor_tBytes b (PutUint64 (make_bytes keywrapChunkLen) (word_of_nat (t + 1))))
                  @ r ! (t mod n)"
    and B: "B = copy_bytes b1 (Decrypt block b1)"
  shows "Unwrap_round block n t (b, r) = (B, r[t mod n := drop keywrapChunkLen B])"
    and "length b1 = 2 * keywrapChunkLen" and "length B = 2 * keywrapChunkLen"
proof -
  have j: "t mod n < n" using n by simp
  have lb: "length b = 2 * keywrapChunkLen" using wf by (simp add: wf_state_def)
  have lj: "length (r ! (t mod n)) = keywrapChunkLen" by (rule wf_state_nth[OF wf j])
  have c1: "copy_at keywrapChunkLen
              (xor_tBytes b (PutUint64 (make_bytes keywrapChunkLen) (word_of_nat (t + 1))))
              (r ! (t mod n)) = b1"
    unfolding b1 by (rule copy_at_chunk) (simp add: lb lj)
  show lb1: "length b1 = 2 * keywrapChunkLen" by (simp add: b1 lb lj)
  show lB: "length B = 2 * keywrapChunkLen" by (simp add: B lb1)
  have c2: "copy_bytes (r ! (t mod n)) (drop keywrapChunkLen B) = drop keywrapChunkLen B"
    by (rule copy_bytes_same_length) (simp add: lB lj)
  show "Unwrap_round block n t (b, r) = (B, r[t mod n := drop keywrapChunkLen B])"
    unfolding Unwrap_round_def Let_def prod.case c1 B[symmetric] c2 ..
qed

lemma Wrap_round_wf:
  assumes "wf_state n s" "0 < n"
  shows "wf_state n (Wrap_round kek n t s)"
proof -
  obtain b r where s: "s = (b, r)" by (cases s)
  note wf = assms(1)[unfolded s]
  note eq = Wrap_round_eq[OF wf assms(2) refl refl]
  show ?thesis unfolding s eq(1)
    by (rule wf_state_update[OF wf])
       (use wf wf_state_nth[OF wf, of "t mod n"] assms(2) in \<open>simp_all add: wf_state_def\<close>)
qed

lemma Unwrap_round_wf:
  assumes "wf_state n s" "0 < n"
  shows "wf_state n (Unwrap_round block n t s)"
proof -
  obtain b r where s: "s = (b, r)" by (cases s)
  note wf = assms(1)[unfolded s]
  note eq = Unwrap_round_eq[OF wf assms(2) refl refl]
  show ?thesis unfolding s eq(1)
    by (rule wf_state_update[OF wf])
       (use wf wf_state_nth[OF wf, of "t mod n"] assms(2) in \<open>simp_all add: wf_state_def\<close>)
qed

lemma Wrap_fold_wf:
  assumes "wf_state n s" "0 < n"
  shows "wf_state n (fold (Wrap_round kek n) ts s)"
  using assms(1) by (induction ts arbitrary: s) (simp_all add: Wrap_round_wf assms(2))

lemma Unwrap_fold_wf:
  assumes "wf_state n s" "0 < n"
  shows "wf_state n (fold (Unwrap_round block n) ts s)"
  using assms(1) by (induction ts arbitrary: s) (simp_all add: Unwrap_round_wf assms(2))

lemma Unwrap_Wrap_round:
  assumes bc: "block_cipher k" and n: "0 < n"
    and wf: "wf_state n s" and wf': "wf_state n s'"
    and eq: "same_AR s' (Wrap_round k n t s)"
  shows "same_AR (Unwrap_round k n t s') s"
proof -
  obtain b r where s: "s = (b, r)" by (cases s)
  obtain b' r' where s': "s' = (b', r')" by (cases s')
  let ?tb = "PutUint64 (make_bytes keywrapChunkLen) (word_of_nat (t + 1))"
  let ?j = "t mod n"
  define b1 where "b1 = take keywrapChunkLen b @ r ! ?j"
  define E where "E = Encrypt k b1"
  have j: "?j < n" using n by simp
  have lr: "length r = n" using wf by (simp add: s wf_state_def)
  have lj: "length (r ! ?j) = keywrapChunkLen" by (rule wf_state_nth[OF wf[unfolded s] j])
  note W = Wrap_round_eq[where kek = k, OF wf[unfolded s] n b1_def refl]
  have lb1: "length b1 = 16" using W(2) by (simp add: keywrapChunkLen_def)
  have lE: "length E = 16" and dE: "Decrypt k E = b1"
    using bc lb1 by (simp_all add: block_cipher_def E_def)
  have B: "copy_bytes b1 (Encrypt k b1) = E"
    unfolding E_def[symmetric] by (rule copy_bytes_same_length) (simp add: lE lb1)
  have Wr: "Wrap_round k n t (b, r) = (xor_tBytes E ?tb, r[?j := drop keywrapChunkLen E])"
    using W(1) unfolding B .
  have r': "r' = r[?j := drop keywrapChunkLen E]"
    and tk: "take keywrapChunkLen b' = take keywrapChunkLen (xor_tBytes E ?tb)"
    using eq by (simp_all add: same_AR_def s s' Wr)
  have lb': "length b' = 2 * keywrapChunkLen" using wf' by (simp add: s' wf_state_def)
  have "take keywrapChunkLen (xor_tBytes b' ?tb)
          = take keywrapChunkLen (xor_tBytes (xor_tBytes E ?tb) ?tb)"
    by (rule take_xor_tBytes_cong[OF _ _ tk]) (simp_all add: lb' lE keywrapChunkLen_def)
  also have "\<dots> = take keywrapChunkLen E"
    by (rule take_xor_tBytes_twice) (simp add: lE keywrapChunkLen_def)
  finally have tx: "take keywrapChunkLen (xor_tBytes b' ?tb) = take keywrapChunkLen E" .
  have r'j: "r' ! ?j = drop keywrapChunkLen E" by (simp add: r' lr j)
  have c1: "take keywrapChunkLen (xor_tBytes b' ?tb) @ r' ! ?j = E"
    unfolding tx r'j by (rule append_take_drop_id)
  have D: "copy_bytes E (Decrypt k E) = b1"
    unfolding dE by (rule copy_bytes_same_length) (simp add: lE lb1)
  note U = Unwrap_round_eq[where block = k, OF wf'[unfolded s'] n c1[symmetric] D[symmetric]]
  have "drop keywrapChunkLen b1 = r ! ?j"
    using wf by (simp add: b1_def s wf_state_def)
  then have "r'[?j := drop keywrapChunkLen b1] = r" by (simp add: r')
  moreover have "take keywrapChunkLen b1 = take keywrapChunkLen b"
    using wf by (simp add: b1_def s wf_state_def)
  ultimately show ?thesis by (simp add: same_AR_def s s' U(1))
qed

lemma Unwrap_Wrap_fold:
  assumes bc: "block_cipher k" and n: "0 < n" and wf: "wf_state n s"
  shows "wf_state n s' \<Longrightarrow> same_AR s' (fold (Wrap_round k n) [0..<m] s) \<Longrightarrow>
         same_AR (fold (Unwrap_round k n) (rev [0..<m]) s') s"
proof (induction m arbitrary: s')
  case 0
  then show ?case by simp
next
  case (Suc m)
  let ?sm = "fold (Wrap_round k n) [0..<m] s"
  have wfm: "wf_state n ?sm" by (rule Wrap_fold_wf[OF wf n])
  have "same_AR s' (Wrap_round k n m ?sm)" using Suc.prems(2) by simp
  then have step: "same_AR (Unwrap_round k n m s') ?sm"
    by (rule Unwrap_Wrap_round[OF bc n wfm Suc.prems(1)])
  have "same_AR (fold (Unwrap_round k n) (rev [0..<m]) (Unwrap_round k n m s')) s"
    by (rule Suc.IH[OF Unwrap_round_wf[OF Suc.prems(1) n] step])
  then show ?case by simp
qed

lemma length_concat_chunks:
  "list_all (\<lambda>x. length x = c) r \<Longrightarrow> length (concat r) = length r * c"
  by (induction r) simp_all

lemma nth_chunk:
  "list_all (\<lambda>x. length x = c) r \<Longrightarrow> i < length r \<Longrightarrow>
   take c (drop (i * c) (concat r)) = r ! i"
proof (induction r arbitrary: i)
  case Nil
  then show ?case by simp
next
  case (Cons x r)
  show ?case
  proof (cases i)
    case 0
    with Cons.prems show ?thesis by simp
  next
    case (Suc i')
    with Cons.prems have "take c (drop (i' * c) (concat r)) = r ! i'"
      by (intro Cons.IH) simp_all
    with Cons.prems Suc show ?thesis by simp
  qed
qed

lemma length_split_chunks [simp]: "length (split_chunks base n src) = n"
  by (simp add: split_chunks_def)

lemma list_all_split_chunks:
  "list_all (\<lambda>x. length x = keywrapChunkLen) (split_chunks base n src)"
  by (simp add: split_chunks_def list_all_iff make_bytes_def)

lemma copy_bytes_make_take:
  "c \<le> length src \<Longrightarrow> copy_bytes (make_bytes c) src = take c src"
  by (simp add: copy_bytes_def make_bytes_def)

lemma split_chunks_concat:
  assumes r: "list_all (\<lambda>x. length x = keywrapChunkLen) r"
    and A: "length A = base * keywrapChunkLen"
  shows "split_chunks base (length r) (A @ concat r) = r"
proof (rule nth_equalityI)
  show "length (split_chunks base (length r) (A @ concat r)) = length r" by simp
next
  fix i assume "i < length (split_chunks base (length r) (A @ concat r))"
  then have i: "i < length r" by simp
  have d: "drop ((i + base) * keywrapChunkLen) (A @ concat r)
             = drop (i * keywrapChunkLen) (concat r)"
    by (simp add: A add_mult_distrib)
  have "Suc i * keywrapChunkLen \<le> length r * keywrapChunkLen"
    using i by (intro mult_le_mono1) simp
  then have l: "keywrapChunkLen \<le> length (drop (i * keywrapChunkLen) (concat r))"
    by (simp add: length_concat_chunks[OF r])
  have "split_chunks base (length r) (A @ concat r) ! i
          = copy_bytes (make_bytes keywrapChunkLen) (drop (i * keywrapChunkLen) (concat r))"
    using i unfolding split_chunks_def d[symmetric] by simp
  also have "\<dots> = take keywrapChunkLen (drop (i * keywrapChunkLen) (concat r))"
    by (rule copy_bytes_make_take[OF l])
  also have "\<dots> = r ! i" by (rule nth_chunk[OF r i])
  finally show "split_chunks base (length r) (A @ concat r) ! i = r ! i" .
qed

lemma concat_split_chunks_take:
  "m * keywrapChunkLen \<le> length src \<Longrightarrow>
   concat (split_chunks 0 m src) = take (m * keywrapChunkLen) src"
proof (induction m)
  case 0
  then show ?case by (simp add: split_chunks_def)
next
  case (Suc m)
  then have IH: "concat (split_chunks 0 m src) = take (m * keywrapChunkLen) src"
    by simp
  have l: "keywrapChunkLen \<le> length (drop (m * keywrapChunkLen) src)"
    using Suc.prems by simp
  have "concat (split_chunks 0 (Suc m) src)
          = concat (split_chunks 0 m src)
            @ copy_bytes (make_bytes keywrapChunkLen) (drop (m * keywrapChunkLen) src)"
    by (simp add: split_chunks_def)
  also have "\<dots> = take (m * keywrapChunkLen) src
                    @ take keywrapChunkLen (drop (m * keywrapChunkLen) src)"
    by (simp only: IH copy_bytes_make_take[OF l])
  also have "\<dots> = take (Suc m * keywrapChunkLen) src"
    by (simp add: take_add[symmetric] add.commute)
  finally show ?case .
qed

lemma concat_split_chunks:
  "length src = n * keywrapChunkLen \<Longrightarrow> concat (split_chunks 0 n src) = src"
  by (simp add: concat_split_chunks_take)

lemma join_chunks_prefix:
  assumes r: "list_all (\<lambda>x. length x = keywrapChunkLen) r"
    and out: "length out = (length r + base) * keywrapChunkLen"
  shows "m \<le> length r \<Longrightarrow>
         fold (\<lambda>i out. copy_at ((i + base) * keywrapChunkLen) out (r ! i)) [0..<m] out
           = take (base * keywrapChunkLen) out @ concat (take m r)
             @ drop ((m + base) * keywrapChunkLen) out"
proof (induction m)
  case 0
  then show ?case by simp
next
  case (Suc m)
  let ?c = keywrapChunkLen
  let ?X = "take (base * ?c) out @ concat (take m r) @ drop ((m + base) * ?c) out"
  have m: "m < length r" using Suc.prems by simp
  have IH: "fold (\<lambda>i out. copy_at ((i + base) * ?c) out (r ! i)) [0..<m] out = ?X"
    using Suc by simp
  have rm: "length (r ! m) = ?c" using r m by (simp add: list_all_length)
  have tr: "list_all (\<lambda>x. length x = ?c) (take m r)"
    using r by (auto simp: list_all_iff dest: in_set_takeD)
  have lc: "length (concat (take m r)) = m * ?c"
    using m by (simp add: length_concat_chunks[OF tr])
  have le: "(Suc m + base) * ?c \<le> length out"
    unfolding out using m by (intro mult_le_mono1) simp
  then have lp: "length (take (base * ?c) out @ concat (take m r)) = (m + base) * ?c"
    by (simp add: lc add_mult_distrib)
  have tX: "take ((m + base) * ?c) ?X = take (base * ?c) out @ concat (take m r)"
    using lp by (metis append.assoc append_eq_conv_conj)
  have dX: "drop ((m + base) * ?c) ?X = drop ((m + base) * ?c) out"
    using lp by (metis append.assoc append_eq_conv_conj)
  have "copy_bytes (drop ((m + base) * ?c) out) (r ! m)
          = r ! m @ drop ((Suc m + base) * ?c) out"
    using le by (simp add: copy_bytes_def rm add.commute)
  then have "copy_at ((m + base) * ?c) ?X (r ! m)
          = (take (base * ?c) out @ concat (take m r)) @ r ! m @ drop ((Suc m + base) * ?c) out"
    by (simp only: copy_at_def tX dX)
  also have "\<dots> = take (base * ?c) out @ concat (take (Suc m) r)
                     @ drop ((Suc m + base) * ?c) out"
    by (simp add: take_Suc_conv_app_nth[OF m])
  finally show ?case
    by (simp only: upt_Suc_append[OF le0] fold_append o_apply fold_simps IH)
qed

lemma join_chunks_concat:
  assumes r: "list_all (\<lambda>x. length x = keywrapChunkLen) r"
    and out: "length out = (length r + base) * keywrapChunkLen"
  shows "join_chunks base r out = take (base * keywrapChunkLen) out @ concat r"
  unfolding join_chunks_def join_chunks_prefix[OF r out le_refl]
  by (simp add: out)

lemma Wrap_initial_wf: "wf_state (length cek div keywrapChunkLen) (Wrap_initial cek)"
  by (simp add: Wrap_initial_def wf_state_def list_all_split_chunks make_bytes_def)

lemma Wrap_final_wf: "wf_state (length cek div keywrapChunkLen) (Wrap_final kek cek)"
proof (cases "length cek div keywrapChunkLen = 0")
  case True
  then show ?thesis unfolding Wrap_final_def Wrap_loop_def using Wrap_initial_wf[of cek] by simp
next
  case False
  then show ?thesis unfolding Wrap_final_def Wrap_loop_def
    by (intro Wrap_fold_wf Wrap_initial_wf) simp
qed

lemma Wrap_eq:
  assumes "length cek mod 8 = 0"
  shows "Wrap kek cek =
           Inr (take keywrapChunkLen (fst (Wrap_final kek cek)) @ concat (snd (Wrap_final kek cek)))"
proof -
  let ?n = "length cek div keywrapChunkLen"
  obtain bf rf where f: "Wrap_final kek cek = (bf, rf)" by (cases "Wrap_final kek cek")
  have wf: "wf_state ?n (bf, rf)" using Wrap_final_wf[of cek kek] by (simp add: f)
  then have lb: "length bf = 2 * keywrapChunkLen" and lr: "length rf = ?n"
    and rf: "list_all (\<lambda>x. length x = keywrapChunkLen) rf"
    by (simp_all add: wf_state_def)
  let ?out = "copy_bytes (make_bytes ((?n + 1) * keywrapChunkLen)) (take keywrapChunkLen bf)"
  have lo: "length ?out = (length rf + 1) * keywrapChunkLen"
    by (simp add: lr make_bytes_def)
  have "take (1 * keywrapChunkLen) ?out = take keywrapChunkLen bf"
    by (simp add: copy_bytes_def make_bytes_def lb)
  then have j: "join_chunks 1 rf ?out = take keywrapChunkLen bf @ concat rf"
    by (simp only: join_chunks_concat[OF rf lo])
  have "Wrap kek cek = Inr (join_chunks 1 rf ?out)"
    using assms f by (simp add: Wrap_def Let_def Wrap_final_def Wrap_initial_def)
  then show ?thesis by (simp only: j f fst_conv snd_conv)
qed

lemma Unwrap_Wrap:
  assumes bc: "block_cipher k" and m8: "length m mod 8 = 0" and pos: "0 < length m"
  shows "Unwrap k (take keywrapChunkLen (fst (Wrap_final k m)) @ concat (snd (Wrap_final k m)))
           = Inr m"
proof -
  let ?c = keywrapChunkLen
  let ?n = "length m div ?c"
  obtain bf rf where f: "Wrap_final k m = (bf, rf)" by (cases "Wrap_final k m")
  have wf: "wf_state ?n (bf, rf)" using Wrap_final_wf[of m k] by (simp add: f)
  then have lb: "length bf = 2 * ?c" and lr: "length rf = ?n"
    and rf: "list_all (\<lambda>x. length x = ?c) rf"
    by (simp_all add: wf_state_def)
  have n: "0 < ?n" using m8 pos unfolding keywrapChunkLen_def by presburger
  have lm: "length m = ?n * ?c" using m8 unfolding keywrapChunkLen_def by presburger
  let ?A = "take ?c bf"
  let ?ct = "?A @ concat rf"
  have lA: "length ?A = 1 * ?c" by (simp add: lb)
  have lct: "length ?ct = (?n + 1) * ?c"
    by (simp add: lb length_concat_chunks[OF rf] lr)
  have g1: "length ?ct mod ?c = 0" by (simp only: lct mod_mult_self2_is_0)
  have g2: "length ?ct div ?c - 1 = ?n"
    by (simp only: lct) (simp add: keywrapChunkLen_def)
  have g3: "\<not> int (length ?ct div ?c) - 1 < 0"
    using n by (simp only: lct) (simp add: keywrapChunkLen_def)
  have sp: "split_chunks 1 ?n ?ct = rf"
    using split_chunks_concat[OF rf lA] by (simp only: lr)
  let ?b' = "copy_bytes (take ?c (make_bytes (?c * 2))) (take ?c ?ct) @ drop ?c (make_bytes (?c * 2))"
  have tb': "take ?c ?b' = ?A"
    by (simp add: copy_bytes_def make_bytes_def lb)
  have wf': "wf_state ?n (?b', rf)"
    by (simp add: wf_state_def rf lr make_bytes_def)
  have same: "same_AR (?b', rf) (fold (Wrap_round k ?n) [0..<6 * ?n] (Wrap_initial m))"
    unfolding Wrap_loop_def[symmetric] Wrap_final_def[symmetric] f same_AR_def fst_conv snd_conv tb'
    by simp
  obtain bu ru where u: "Unwrap_loop k ?n (?b', rf) = (bu, ru)"
    by (cases "Unwrap_loop k ?n (?b', rf)")
  have "same_AR (bu, ru) (Wrap_initial m)"
    using Unwrap_Wrap_fold[OF bc n Wrap_initial_wf wf' same]
    unfolding Unwrap_loop_def[symmetric] u .
  then have bu: "take ?c bu = keywrapDefaultIV" and ru: "ru = split_chunks 0 ?n m"
    by (simp_all add: same_AR_def Wrap_initial_def copy_bytes_def make_bytes_def
          keywrapChunkLen_def keywrapDefaultIV_def)
  have jo: "join_chunks 0 ru (make_bytes (?n * ?c)) = m"
    unfolding ru
    using join_chunks_concat[where r = "split_chunks 0 ?n m" and base = 0
        and out = "make_bytes (?n * ?c)", OF list_all_split_chunks]
      concat_split_chunks[OF lm]
    by (simp add: make_bytes_def)
  have "Unwrap k ?ct = Inr m"
    unfolding Unwrap_def Let_def
    by (simp only: g1 g2 g3 sp u prod.case bu jo ConstantTimeCompare_def) simp
  then show ?thesis by (simp only: f fst_conv snd_conv)
qed

section \<open>AES key wrap: the claims\<close>

lemma toy_block_cipher: "block_cipher toy_cipher"
  by (simp add: block_cipher_def toy_cipher_def o_def)

lemmas keywrap_eval =
  Wrap_def Unwrap_def Wrap_loop_def Unwrap_loop_def Wrap_round_def Unwrap_round_def
  split_chunks_def join_chunks_def copy_bytes_def copy_at_def make_bytes_def keywrapChunkLen_def
  keywrapDefaultIV_def xor_tBytes_def PutUint64_def ConstantTimeCompare_def toy_cipher_def
  upt_rec drop_bit_eq_div Let_def

lemma Wrap_final_shape:
  "length (snd (Wrap_final kek cek)) = length cek div 8 \<and>
   list_all (\<lambda>x. length x = 8) (snd (Wrap_final kek cek)) \<and>
   length (take 8 (fst (Wrap_final kek cek))) = 8"
  using Wrap_final_wf[of cek kek] by (simp add: wf_state_def keywrapChunkLen_def)

text \<open>
  C1. For a block cipher \<open>k\<close> (decryption undoes encryption on 16-byte blocks) and a CEK
  \<open>m\<close> whose length is a positive multiple of 8, \<open>Wrap k m\<close> succeeds and
  \<open>Unwrap k\<close> of its output succeeds and returns exactly \<open>m\<close>.
\<close>

theorem Unwrap_Wrap_roundtrip:
  assumes "block_cipher k" and "length m mod 8 = 0" and "0 < length m"
  shows "\<exists>c. Wrap k m = Inr c \<and> Unwrap k c = Inr m"
  using Wrap_eq[OF assms(2), of k] Unwrap_Wrap[OF assms] by simp

theorem Unwrap_Wrap_roundtrip_witness:
  "block_cipher toy_cipher \<and>
   Wrap toy_cipher [0, 1, 2, 3, 4, 5, 6, 7, 8, 9, 10, 11, 12, 13, 14, 15] =
     Inr [174, 174, 174, 174, 174, 174, 174, 170, 28, 9, 10, 11, 12, 13, 14, 15,
          16, 17, 18, 19, 20, 21, 22, 23] \<and>
   Unwrap toy_cipher [174, 174, 174, 174, 174, 174, 174, 170, 28, 9, 10, 11, 12, 13, 14, 15,
          16, 17, 18, 19, 20, 21, 22, 23] =
     Inr [0, 1, 2, 3, 4, 5, 6, 7, 8, 9, 10, 11, 12, 13, 14, 15]"
proof -
  let ?m = "[0, 1, 2, 3, 4, 5, 6, 7, 8, 9, 10, 11, 12, 13, 14, 15] :: byte list"
  have w: "Wrap toy_cipher ?m =
     Inr [174, 174, 174, 174, 174, 174, 174, 170, 28, 9, 10, 11, 12, 13, 14, 15,
          16, 17, 18, 19, 20, 21, 22, 23]"
    by (simp add: keywrap_eval)
  have "\<exists>c. Wrap toy_cipher ?m = Inr c \<and> Unwrap toy_cipher c = Inr ?m"
    by (rule Unwrap_Wrap_roundtrip[OF toy_block_cipher]) simp_all
  with w toy_block_cipher show ?thesis by auto
qed

text \<open>
  C3, as amended. \<open>Unwrap\<close> returns the input-shape error whenever the length of the input
  is not a multiple of 8, whatever the cipher: the check comes before the loop, so no
  cipher operation and no integrity check takes place. (An input of 8 or 16 bytes passes
  this check.)
\<close>

theorem Unwrap_input_shape:
  "length c mod 8 \<noteq> 0 \<Longrightarrow> Unwrap k c = Inl KeyunwrapInputNotBlocks"
  by (simp add: Unwrap_def keywrapChunkLen_def)

theorem Unwrap_input_shape_witness:
  "length [1, 2, 3 :: byte] mod 8 \<noteq> 0 \<and> Unwrap toy_cipher [1, 2, 3] = Inl KeyunwrapInputNotBlocks"
  using Unwrap_input_shape[of "[1, 2, 3]" toy_cipher] by simp

text \<open>
  C3 as stated fails: inputs shorter than 24 bytes whose length is a multiple of 8 are
  not rejected by the shape check. The 16-byte output of \<open>Wrap\<close> on an 8-byte CEK is
  unwrapped (six cipher operations and the integrity check), the default IV alone is
  unwrapped to the empty key, and eight other bytes fail the integrity check, not the
  shape check.
\<close>

theorem Unwrap_short_input_counterexample:
  "length [172, 172, 172, 172, 172, 172, 172, 172, 7, 7, 8, 9, 10, 11, 12, 13 :: byte] < 24 \<and>
   Unwrap toy_cipher [172, 172, 172, 172, 172, 172, 172, 172, 7, 7, 8, 9, 10, 11, 12, 13]
     = Inr [0, 1, 2, 3, 4, 5, 6, 7] \<and>
   Unwrap toy_cipher [0xa6, 0xa6, 0xa6, 0xa6, 0xa6, 0xa6, 0xa6, 0xa6] = Inr [] \<and>
   Unwrap toy_cipher [1, 2, 3, 4, 5, 6, 7, 8] = Inl KeyUnwrapFailed"
  by (simp add: keywrap_eval)

text \<open>
  C4, as amended. \<open>Wrap\<close> fails, with the input-shape error, exactly when the length of
  the CEK is not a multiple of 8. When the length is \<open>8 * n\<close>, for any \<open>n\<close> (0 too), it
  succeeds; the output has \<open>(n + 1) * 8\<close> bytes: the first 8 bytes of the buffer the loop
  ends with (the transformed IV), then the \<open>n\<close> chunks of 8 bytes the loop ends with.
\<close>

theorem Wrap_shape:
  "(length cek mod 8 \<noteq> 0 \<longrightarrow> Wrap kek cek = Inl KeywrapInputNotBlocks) \<and>
   (\<forall>n. length cek = 8 * n \<longrightarrow>
      (\<exists>out. Wrap kek cek = Inr out \<and> length out = (n + 1) * 8 \<and>
         out = take 8 (fst (Wrap_final kek cek)) @ concat (snd (Wrap_final kek cek)) \<and>
         length (snd (Wrap_final kek cek)) = n \<and>
         list_all (\<lambda>x. length x = 8) (snd (Wrap_final kek cek))))"
proof (intro conjI allI impI)
  assume "length cek mod 8 \<noteq> 0"
  then show "Wrap kek cek = Inl KeywrapInputNotBlocks" by (simp add: Wrap_def)
next
  fix n assume n: "length cek = 8 * n"
  then have m8: "length cek mod 8 = 0" by simp
  note sh = Wrap_final_shape[of kek cek]
  have ln: "length (snd (Wrap_final kek cek)) = n" using sh n by simp
  have lc: "length (concat (snd (Wrap_final kek cek))) = n * 8"
    using length_concat_chunks[of 8 "snd (Wrap_final kek cek)"] sh ln by simp
  show "\<exists>out. Wrap kek cek = Inr out \<and> length out = (n + 1) * 8 \<and>
         out = take 8 (fst (Wrap_final kek cek)) @ concat (snd (Wrap_final kek cek)) \<and>
         length (snd (Wrap_final kek cek)) = n \<and>
         list_all (\<lambda>x. length x = 8) (snd (Wrap_final kek cek))"
    using Wrap_eq[OF m8, of kek] sh ln lc by (simp add: keywrapChunkLen_def)
qed

theorem Wrap_shape_witness:
  "Wrap toy_cipher [1, 2, 3] = Inl KeywrapInputNotBlocks \<and>
   Wrap toy_cipher [0, 1, 2, 3, 4, 5, 6, 7] =
     Inr [172, 172, 172, 172, 172, 172, 172, 172, 7, 7, 8, 9, 10, 11, 12, 13] \<and>
   length [172, 172, 172, 172, 172, 172, 172, 172, 7, 7, 8, 9, 10, 11, 12, 13 :: byte] = (1 + 1) * 8"
proof -
  have "Wrap toy_cipher [1, 2, 3] = Inl KeywrapInputNotBlocks"
    using Wrap_shape[of "[1, 2, 3]" toy_cipher] by simp
  moreover have "\<exists>out. Wrap toy_cipher [0, 1, 2, 3, 4, 5, 6, 7] = Inr out \<and> length out = (1 + 1) * 8"
    using Wrap_shape[of "[0, 1, 2, 3, 4, 5, 6, 7]" toy_cipher, THEN conjunct2, THEN spec, of 1]
    by auto
  moreover have "Wrap toy_cipher [0, 1, 2, 3, 4, 5, 6, 7] =
     Inr [172, 172, 172, 172, 172, 172, 172, 172, 7, 7, 8, 9, 10, 11, 12, 13]"
    by (simp add: keywrap_eval)
  ultimately show ?thesis by simp
qed

text \<open>
  C4 as stated fails at the empty CEK, whose length is not a positive multiple of 8:
  \<open>Wrap\<close> does not fail, it returns the default IV.
\<close>

theorem Wrap_empty_counterexample:
  "length ([] :: byte list) = 0 \<and>
   Wrap toy_cipher [] = Inr [0xa6, 0xa6, 0xa6, 0xa6, 0xa6, 0xa6, 0xa6, 0xa6]"
  by (simp add: keywrap_eval)

section \<open>ECDH-ES and ECMR: the claims\<close>

lemma DeriveECDHES_kdf:
  "DeriveECDHES env alg u v priv pub ks =
     (if \<not> IsOnCurve env (Curve priv) (X pub) (Y pub) then Inl PublicKeyNotOnCurve
      else case concatkdf env alg
                  (AllocECPointBuffer env
                     (fst (ScalarMult env (Curve priv) (X pub) (Y pub) (big_Bytes (D priv))))
                     (Curve priv))
                  u v (PutUint32 (make_bytes 4) (ks * 8)) [] (unat ks) of
             None \<Rightarrow> Inl KdfReadFailed
           | Some k \<Rightarrow> Inr (copy_bytes (make_bytes (unat ks)) k))"
  by (simp add: DeriveECDHES_def Let_def split: prod.splits)

lemma DeriveECDHES_length:
  "DeriveECDHES env alg u v priv pub ks = Inr key \<Longrightarrow> length key = unat ks"
  by (auto simp: DeriveECDHES_kdf make_bytes_def split: if_splits option.splits)

text \<open>
  C5. \<open>ECDHESDecrypt.Decrypt\<close> chooses the AlgorithmID and the key size of the KDF by the
  key-encryption algorithm. Let \<open>zBytes\<close> be the buffer of the shared point. For
  \<open>ECDH_ES\<close> the KDF is called with the name of the content-encryption algorithm as
  AlgorithmID and the key size \<open>ks\<close> of the content cipher (as \<open>ks * 8\<close> bits in
  SuppPubInfo and as the number of bytes read), and the key read is returned as it is: the
  encrypted key is not read and nothing is unwrapped. For \<open>ECDH_ES_A128KW\<close>, \<open>A192KW\<close>
  and \<open>A256KW\<close> the KDF is called with the name of the key-encryption algorithm and the
  key size 16, 24 and 32, and the result is \<open>Unwrap\<close> of the encrypted key under the
  cipher made of the key read. For any other algorithm \<open>Decrypt\<close> fails.
\<close>

theorem ECDHESDecrypt_Decrypt_dispatch:
  assumes "zBytes =
     AllocECPointBuffer env
       (fst (ScalarMult env (Curve (kw_privkey kw)) (X (kw_pubkey kw)) (Y (kw_pubkey kw))
               (big_Bytes (D (kw_privkey kw)))))
       (Curve (kw_privkey kw))"
  shows
  "(kw_keyalg kw = ECDH_ES \<longrightarrow>
      ECDHESDecrypt_Decrypt env kw enckey =
        (case contentcipher_KeySize env (kw_contentalg kw) of
           None \<Rightarrow> Inl (ContentCipherFailed (kw_contentalg kw))
         | Some n \<Rightarrow>
             if \<not> IsOnCurve env (Curve (kw_privkey kw)) (X (kw_pubkey kw)) (Y (kw_pubkey kw))
             then Inl (DeriveECDHESFailed PublicKeyNotOnCurve)
             else (case concatkdf env (contentalg_String env (kw_contentalg kw)) zBytes
                          (kw_apu kw) (kw_apv kw)
                          (PutUint32 (make_bytes 4) ((word_of_nat n :: 32 word) * 8)) []
                          (unat (word_of_nat n :: 32 word)) of
                     None \<Rightarrow> Inl (DeriveECDHESFailed KdfReadFailed)
                   | Some k \<Rightarrow>
                       Inr (copy_bytes (make_bytes (unat (word_of_nat n :: 32 word))) k)))) \<and>
   (\<forall>ks. (kw_keyalg kw, ks) \<in> {(ECDH_ES_A128KW, 16), (ECDH_ES_A192KW, 24), (ECDH_ES_A256KW, 32)} \<longrightarrow>
      ECDHESDecrypt_Decrypt env kw enckey =
        (if \<not> IsOnCurve env (Curve (kw_privkey kw)) (X (kw_pubkey kw)) (Y (kw_pubkey kw))
         then Inl (DeriveECDHESFailed PublicKeyNotOnCurve)
         else (case concatkdf env (keyalg_String env (kw_keyalg kw)) zBytes
                      (kw_apu kw) (kw_apv kw) (PutUint32 (make_bytes 4) (ks * 8)) [] (unat ks) of
                 None \<Rightarrow> Inl (DeriveECDHESFailed KdfReadFailed)
               | Some k \<Rightarrow>
                   (case aes_NewCipher env (copy_bytes (make_bytes (unat ks)) k) of
                      None \<Rightarrow> Inl NewCipherFailed
                    | Some block \<Rightarrow> Unwrap block enckey)))) \<and>
   (kw_keyalg kw \<notin> {ECDH_ES, ECDH_ES_A128KW, ECDH_ES_A192KW, ECDH_ES_A256KW} \<longrightarrow>
      ECDHESDecrypt_Decrypt env kw enckey = Inl (InvalidECDHESAlgorithm (kw_keyalg kw)))"
proof (intro conjI allI impI)
  assume "kw_keyalg kw = ECDH_ES"
  then show "ECDHESDecrypt_Decrypt env kw enckey =
        (case contentcipher_KeySize env (kw_contentalg kw) of
           None \<Rightarrow> Inl (ContentCipherFailed (kw_contentalg kw))
         | Some n \<Rightarrow>
             if \<not> IsOnCurve env (Curve (kw_privkey kw)) (X (kw_pubkey kw)) (Y (kw_pubkey kw))
             then Inl (DeriveECDHESFailed PublicKeyNotOnCurve)
             else (case concatkdf env (contentalg_String env (kw_contentalg kw)) zBytes
                          (kw_apu kw) (kw_apv kw)
                          (PutUint32 (make_bytes 4) ((word_of_nat n :: 32 word) * 8)) []
                          (unat (word_of_nat n :: 32 word)) of
                     None \<Rightarrow> Inl (DeriveECDHESFailed KdfReadFailed)
                   | Some k \<Rightarrow>
                       Inr (copy_bytes (make_bytes (unat (word_of_nat n :: 32 word))) k)))"
    by (simp add: ECDHESDecrypt_Decrypt_def ECDHES_select_def DeriveECDHES_kdf assms
          split: option.splits)
next
  fix ks :: "32 word"
  assume "(kw_keyalg kw, ks) \<in> {(ECDH_ES_A128KW, 16), (ECDH_ES_A192KW, 24), (ECDH_ES_A256KW, 32)}"
  then show "ECDHESDecrypt_Decrypt env kw enckey =
        (if \<not> IsOnCurve env (Curve (kw_privkey kw)) (X (kw_pubkey kw)) (Y (kw_pubkey kw))
         then Inl (DeriveECDHESFailed PublicKeyNotOnCurve)
         else (case concatkdf env (keyalg_String env (kw_keyalg kw)) zBytes
                      (kw_apu kw) (kw_apv kw) (PutUint32 (make_bytes 4) (ks * 8)) [] (unat ks) of
                 None \<Rightarrow> Inl (DeriveECDHESFailed KdfReadFailed)
               | Some k \<Rightarrow>
                   (case aes_NewCipher env (copy_bytes (make_bytes (unat ks)) k) of
                      None \<Rightarrow> Inl NewCipherFailed
                    | Some block \<Rightarrow> Unwrap block enckey)))"
    by (auto simp: ECDHESDecrypt_Decrypt_def ECDHES_select_def DeriveECDHES_kdf assms
          split: option.splits)
next
  assume "kw_keyalg kw \<notin> {ECDH_ES, ECDH_ES_A128KW, ECDH_ES_A192KW, ECDH_ES_A256KW}"
  then show "ECDHESDecrypt_Decrypt env kw enckey = Inl (InvalidECDHESAlgorithm (kw_keyalg kw))"
    by (cases "kw_keyalg kw") (simp_all add: ECDHESDecrypt_Decrypt_def ECDHES_select_def)
qed

lemma bytes_of_A128GCM: "bytes_of ''A128GCM'' = [65, 49, 50, 56, 71, 67, 77]"
  by (simp add: bytes_of_def)

lemma bytes_of_ECDH_ES_A128KW:
  "bytes_of ''ECDH-ES+A128KW'' = [69, 67, 68, 72, 45, 69, 83, 43, 65, 49, 50, 56, 75, 87]"
  by (simp add: bytes_of_def)

lemma nat_Bytes_small: "0 < n \<Longrightarrow> n < 256 \<Longrightarrow> nat_Bytes n = [word_of_nat n]"
  by (subst nat_Bytes.simps) (simp add: nat_Bytes.simps[of 0])

lemmas toy_env_eval =
  toy_env_def toy_pubkey_def toy_privkey_def toy_KeySize_def toy_keyalg_name_def
  toy_contentalg_name_def PutUint32_def newFixedSizeBuffer_def curveSize_def
  curve_P256_def curve_P521_def P256_def P521_def big_Bytes_def big_SetBytes_def
  make_bytes_def copy_bytes_def nat_Bytes_small Let_def

lemma toy_zBytes:
  "AllocECPointBuffer toy_env
     (fst (ScalarMult toy_env (Curve toy_privkey) (X toy_pubkey) (Y toy_pubkey)
             (big_Bytes (D toy_privkey))))
     (Curve toy_privkey)
   = replicate 31 0 @ [21]"
  by (simp add: toy_env_def toy_pubkey_def toy_privkey_def curve_P256_def P256_def
        newFixedSizeBuffer_def curveSize_def big_Bytes_def big_SetBytes_def make_bytes_def
        nat_Bytes_small)

lemma toy_on_curve:
  "IsOnCurve toy_env (Curve toy_privkey) (X toy_pubkey) (Y toy_pubkey)"
  by (simp add: toy_env_def toy_pubkey_def)

lemma toy_kdf_direct:
  "concatkdf toy_env (bytes_of ''A128GCM'') (replicate 31 0 @ [21]) u v pubinfo privinfo 16
     = Some [65, 49, 50, 56, 71, 67, 77, 0, 0, 0, 0, 0, 0, 0, 0, 0]"
  by (simp add: toy_env_def bytes_of_A128GCM, simp add: eval_nat_numeral)

lemma toy_kdf_kw:
  "concatkdf toy_env (bytes_of ''ECDH-ES+A128KW'') (replicate 31 0 @ [21]) u v pubinfo privinfo 16
     = Some [69, 67, 68, 72, 45, 69, 83, 43, 65, 49, 50, 56, 75, 87, 0, 0]"
  by (simp add: toy_env_def bytes_of_ECDH_ES_A128KW, simp add: eval_nat_numeral)

lemma toy_Unwrap_kw:
  "Unwrap (keyed_toy_cipher [69, 67, 68, 72, 45, 69, 83, 43, 65, 49, 50, 56, 75, 87, 0, 0])
     [68, 68, 68, 68, 68, 68, 68, 68, 158, 160, 161, 162, 163, 164, 165, 166]
   = Inr [1, 2, 3, 4, 5, 6, 7, 8]"
  by (simp add: keywrap_eval keyed_toy_cipher_def)

theorem ECDHESDecrypt_Decrypt_dispatch_witness:
  "ECDHESDecrypt_Decrypt toy_env
     (NewECDHESDecrypt ECDH_ES A128GCM toy_pubkey (bytes_of ''Alice'') (bytes_of ''Bob'') toy_privkey)
     [1, 2, 3]
   = Inr [65, 49, 50, 56, 71, 67, 77, 0, 0, 0, 0, 0, 0, 0, 0, 0] \<and>
   ECDHESDecrypt_Decrypt toy_env
     (NewECDHESDecrypt ECDH_ES_A128KW A256GCM toy_pubkey (bytes_of ''Alice'') (bytes_of ''Bob'') toy_privkey)
     [68, 68, 68, 68, 68, 68, 68, 68, 158, 160, 161, 162, 163, 164, 165, 166]
   = Inr [1, 2, 3, 4, 5, 6, 7, 8] \<and>
   ECDHESDecrypt_Decrypt toy_env
     (NewECDHESDecrypt RSA1_5 A128GCM toy_pubkey (bytes_of ''Alice'') (bytes_of ''Bob'') toy_privkey)
     [1, 2, 3]
   = Inl (InvalidECDHESAlgorithm RSA1_5)"
proof -
  let ?kw = "\<lambda>a c. NewECDHESDecrypt a c toy_pubkey (bytes_of ''Alice'') (bytes_of ''Bob'') toy_privkey"
  have f: "kw_keyalg (?kw a c) = a" "kw_contentalg (?kw a c) = c"
    "kw_apu (?kw a c) = bytes_of ''Alice''" "kw_apv (?kw a c) = bytes_of ''Bob''"
    "kw_privkey (?kw a c) = toy_privkey" "kw_pubkey (?kw a c) = toy_pubkey" for a c
    by (simp_all add: NewECDHESDecrypt_def)
  have z: "replicate 31 0 @ [21] =
     AllocECPointBuffer toy_env
       (fst (ScalarMult toy_env (Curve (kw_privkey (?kw a c))) (X (kw_pubkey (?kw a c)))
               (Y (kw_pubkey (?kw a c))) (big_Bytes (D (kw_privkey (?kw a c))))))
       (Curve (kw_privkey (?kw a c)))" for a c
    by (simp only: f toy_zBytes)
  have n: "contentcipher_KeySize toy_env A128GCM = Some 16"
    "contentalg_String toy_env A128GCM = bytes_of ''A128GCM''"
    "keyalg_String toy_env ECDH_ES_A128KW = bytes_of ''ECDH-ES+A128KW''"
    "aes_NewCipher toy_env [69, 67, 68, 72, 45, 69, 83, 43, 65, 49, 50, 56, 75, 87, 0, 0]
       = Some (keyed_toy_cipher [69, 67, 68, 72, 45, 69, 83, 43, 65, 49, 50, 56, 75, 87, 0, 0])"
    by (simp_all add: toy_env_def toy_KeySize_def toy_contentalg_name_def toy_keyalg_name_def)
  have cp: "copy_bytes (make_bytes 16) [65, 49, 50, 56, 71, 67, 77, 0, 0, 0, 0, 0, 0, 0, 0, 0]
              = [65, 49, 50, 56, 71, 67, 77, 0, 0, 0, 0, 0, 0, 0, 0, 0]"
    "copy_bytes (make_bytes 16) [69, 67, 68, 72, 45, 69, 83, 43, 65, 49, 50, 56, 75, 87, 0, 0]
              = [69, 67, 68, 72, 45, 69, 83, 43, 65, 49, 50, 56, 75, 87, 0, 0]"
    by (simp_all add: copy_bytes_def make_bytes_def)
  have "ECDHESDecrypt_Decrypt toy_env (?kw ECDH_ES A128GCM) [1, 2, 3]
          = Inr [65, 49, 50, 56, 71, 67, 77, 0, 0, 0, 0, 0, 0, 0, 0, 0]"
    using ECDHESDecrypt_Decrypt_dispatch[OF z, of ECDH_ES A128GCM "[1, 2, 3]", THEN conjunct1]
    by (simp add: f n toy_on_curve toy_kdf_direct cp)
  moreover have "ECDHESDecrypt_Decrypt toy_env (?kw ECDH_ES_A128KW A256GCM)
          [68, 68, 68, 68, 68, 68, 68, 68, 158, 160, 161, 162, 163, 164, 165, 166]
          = Inr [1, 2, 3, 4, 5, 6, 7, 8]"
    using ECDHESDecrypt_Decrypt_dispatch[OF z, of ECDH_ES_A128KW A256GCM
        "[68, 68, 68, 68, 68, 68, 68, 68, 158, 160, 161, 162, 163, 164, 165, 166]",
        THEN conjunct2, THEN conjunct1, THEN spec, of 16]
    by (simp add: f n toy_on_curve toy_kdf_kw cp toy_Unwrap_kw)
  moreover have "ECDHESDecrypt_Decrypt toy_env (?kw RSA1_5 A128GCM) [1, 2, 3]
          = Inl (InvalidECDHESAlgorithm RSA1_5)"
    using ECDHESDecrypt_Decrypt_dispatch[OF z, of RSA1_5 A128GCM "[1, 2, 3]",
        THEN conjunct2, THEN conjunct2]
    by (simp add: f)
  ultimately show ?thesis by simp
qed

lemma DeriveECMR_alt:
  "DeriveECMR env alg u v exchFn pubkey ks =
     (case GenerateKey env (Curve pubkey) of
        Inl err \<Rightarrow> Inl (GenerateKeyFailed err)
      | Inr tempKey \<Rightarrow>
          (case exchFn (ECMR_xfrKey env tempKey pubkey) of
             Inl err \<Rightarrow> Inl (ExchangeFailed err)
           | Inr (respKey, srvKey) \<Rightarrow>
               if Curve respKey \<noteq> Curve pubkey then Inl CurveTypeMismatch
               else if \<not> IsOnCurve env (Curve pubkey) (X srvKey) (Y srvKey)
                 then Inl ServerKeyNotOnCurve
               else (case ECMR_kdf env alg u v tempKey pubkey respKey srvKey ks of
                       None \<Rightarrow> Inl KdfReadFailed
                     | Some k \<Rightarrow> Inr (copy_bytes (make_bytes (unat ks)) k))))"
  by (simp add: DeriveECMR_def ECMR_xfrKey_def ECMR_kdf_def Let_def
        split: sum.splits prod.splits option.splits)

text \<open>
  C7. \<open>DeriveECMR\<close>, once the ephemeral key is there, fails with the exchange error
  whenever the exchange function returns an error; fails with a curve error whenever the
  curve of the response key is not the curve of the recipient's key, or the server key is
  not on that curve; and returns a key only when the exchange succeeded and both checks
  passed, the key then being what the KDF gave.
\<close>

theorem DeriveECMR_checks:
  "(\<forall>tempKey err.
      GenerateKey env (Curve pubkey) = Inr tempKey \<and>
      exchFn (ECMR_xfrKey env tempKey pubkey) = Inl err \<longrightarrow>
      DeriveECMR env alg u v exchFn pubkey ks = Inl (ExchangeFailed err)) \<and>
   (\<forall>tempKey respKey srvKey.
      GenerateKey env (Curve pubkey) = Inr tempKey \<and>
      exchFn (ECMR_xfrKey env tempKey pubkey) = Inr (respKey, srvKey) \<and>
      Curve respKey \<noteq> Curve pubkey \<longrightarrow>
      DeriveECMR env alg u v exchFn pubkey ks = Inl CurveTypeMismatch) \<and>
   (\<forall>tempKey respKey srvKey.
      GenerateKey env (Curve pubkey) = Inr tempKey \<and>
      exchFn (ECMR_xfrKey env tempKey pubkey) = Inr (respKey, srvKey) \<and>
      Curve respKey = Curve pubkey \<and>
      \<not> IsOnCurve env (Curve pubkey) (X srvKey) (Y srvKey) \<longrightarrow>
      DeriveECMR env alg u v exchFn pubkey ks = Inl ServerKeyNotOnCurve) \<and>
   (\<forall>key.
      DeriveECMR env alg u v exchFn pubkey ks = Inr key \<longrightarrow>
      (\<exists>tempKey respKey srvKey k.
         GenerateKey env (Curve pubkey) = Inr tempKey \<and>
         exchFn (ECMR_xfrKey env tempKey pubkey) = Inr (respKey, srvKey) \<and>
         Curve respKey = Curve pubkey \<and>
         IsOnCurve env (Curve pubkey) (X srvKey) (Y srvKey) \<and>
         ECMR_kdf env alg u v tempKey pubkey respKey srvKey ks = Some k \<and>
         key = copy_bytes (make_bytes (unat ks)) k))"
proof (intro conjI allI impI)
  fix tempKey err
  assume "GenerateKey env (Curve pubkey) = Inr tempKey \<and>
      exchFn (ECMR_xfrKey env tempKey pubkey) = Inl err"
  then show "DeriveECMR env alg u v exchFn pubkey ks = Inl (ExchangeFailed err)"
    by (simp add: DeriveECMR_alt)
next
  fix tempKey respKey srvKey
  assume "GenerateKey env (Curve pubkey) = Inr tempKey \<and>
      exchFn (ECMR_xfrKey env tempKey pubkey) = Inr (respKey, srvKey) \<and>
      Curve respKey \<noteq> Curve pubkey"
  then show "DeriveECMR env alg u v exchFn pubkey ks = Inl CurveTypeMismatch"
    by (simp add: DeriveECMR_alt)
next
  fix tempKey respKey srvKey
  assume "GenerateKey env (Curve pubkey) = Inr tempKey \<and>
      exchFn (ECMR_xfrKey env tempKey pubkey) = Inr (respKey, srvKey) \<and>
      Curve respKey = Curve pubkey \<and>
      \<not> IsOnCurve env (Curve pubkey) (X srvKey) (Y srvKey)"
  then show "DeriveECMR env alg u v exchFn pubkey ks = Inl ServerKeyNotOnCurve"
    by (simp add: DeriveECMR_alt)
next
  fix key
  assume "DeriveECMR env alg u v exchFn pubkey ks = Inr key"
  then show "\<exists>tempKey respKey srvKey k.
         GenerateKey env (Curve pubkey) = Inr tempKey \<and>
         exchFn (ECMR_xfrKey env tempKey pubkey) = Inr (respKey, srvKey) \<and>
         Curve respKey = Curve pubkey \<and>
         IsOnCurve env (Curve pubkey) (X srvKey) (Y srvKey) \<and>
         ECMR_kdf env alg u v tempKey pubkey respKey srvKey ks = Some k \<and>
         key = copy_bytes (make_bytes (unat ks)) k"
    by (auto simp: DeriveECMR_alt split: sum.splits prod.splits if_splits option.splits)
qed

lemma toy_xfrKey:
  "ECMR_xfrKey toy_env \<lparr> Curve = curve_P256, X = 2, Y = 4, D = 3 \<rparr> toy_pubkey
     = \<lparr> Curve = curve_P256, X = 5, Y = 13 \<rparr>"
  by (simp add: ECMR_xfrKey_def toy_env_def toy_pubkey_def)

lemma toy_pubkey_Curve: "Curve toy_pubkey = curve_P256"
  by (simp add: toy_pubkey_def)

lemma P521_neq_P256: "curve_P521 \<noteq> curve_P256"
  by (simp add: curve_P521_def curve_P256_def)

lemma another_P256_neq: "another_P256 \<noteq> curve_P256" "Params another_P256 = Params curve_P256"
  by (simp_all add: another_P256_def curve_P256_def)

lemma toy_GenerateKey:
  "GenerateKey toy_env curve_P256 = Inr \<lparr> Curve = curve_P256, X = 2, Y = 4, D = 3 \<rparr>"
  by (simp add: toy_env_def)

lemma toy_DeriveECMR_ok:
  "DeriveECMR toy_env (bytes_of ''A128GCM'') [] [] exch_ok toy_pubkey 16
     = Inr [65, 49, 50, 56, 71, 67, 77, 0, 0, 0, 0, 0, 0, 0, 0, 0]"
  by (simp add: DeriveECMR_def exch_ok_def toy_env_eval bytes_of_A128GCM,
      simp add: eval_nat_numeral)

theorem DeriveECMR_checks_witness:
  "DeriveECMR toy_env (bytes_of ''A128GCM'') [] [] exch_fails toy_pubkey 16
     = Inl (ExchangeFailed ''connection refused'') \<and>
   DeriveECMR toy_env (bytes_of ''A128GCM'') [] [] exch_other_curve toy_pubkey 16
     = Inl CurveTypeMismatch \<and>
   DeriveECMR toy_env (bytes_of ''A128GCM'') [] [] exch_same_params toy_pubkey 16
     = Inl CurveTypeMismatch \<and>
   DeriveECMR toy_env (bytes_of ''A128GCM'') [] [] exch_off_curve toy_pubkey 16
     = Inl ServerKeyNotOnCurve \<and>
   DeriveECMR toy_env (bytes_of ''A128GCM'') [] [] exch_ok toy_pubkey 16
     = Inr [65, 49, 50, 56, 71, 67, 77, 0, 0, 0, 0, 0, 0, 0, 0, 0] \<and>
   exch_ok (ECMR_xfrKey toy_env \<lparr> Curve = curve_P256, X = 2, Y = 4, D = 3 \<rparr> toy_pubkey)
     = Inr (\<lparr> Curve = curve_P256, X = 10, Y = 100 \<rparr>, \<lparr> Curve = curve_P256, X = 2, Y = 4 \<rparr>) \<and>
   IsOnCurve toy_env curve_P256 2 4"
proof -
  let ?t = "\<lparr> Curve = curve_P256, X = 2, Y = 4, D = 3 \<rparr>"
  note th = DeriveECMR_checks[of toy_env toy_pubkey _ "bytes_of ''A128GCM''" "[]" "[]" 16]
  have a: "DeriveECMR toy_env (bytes_of ''A128GCM'') [] [] exch_fails toy_pubkey 16
     = Inl (ExchangeFailed ''connection refused'')"
    using th[of exch_fails, THEN conjunct1, THEN spec, THEN spec, of ?t "''connection refused''"]
    by (simp add: toy_GenerateKey toy_pubkey_Curve exch_fails_def)
  have b: "DeriveECMR toy_env (bytes_of ''A128GCM'') [] [] exch_other_curve toy_pubkey 16
     = Inl CurveTypeMismatch"
    using th[of exch_other_curve, THEN conjunct2, THEN conjunct1, THEN spec, THEN spec, THEN spec,
        of ?t "\<lparr> Curve = curve_P521, X = 2, Y = 4 \<rparr>" "\<lparr> Curve = curve_P256, X = 2, Y = 4 \<rparr>"]
    by (simp add: toy_GenerateKey toy_xfrKey exch_other_curve_def toy_pubkey_Curve P521_neq_P256)
  have b': "DeriveECMR toy_env (bytes_of ''A128GCM'') [] [] exch_same_params toy_pubkey 16
     = Inl CurveTypeMismatch"
    using th[of exch_same_params, THEN conjunct2, THEN conjunct1, THEN spec, THEN spec, THEN spec,
        of ?t "\<lparr> Curve = another_P256, X = 2, Y = 4 \<rparr>" "\<lparr> Curve = curve_P256, X = 2, Y = 5 \<rparr>"]
    by (simp add: toy_GenerateKey toy_xfrKey exch_same_params_def toy_pubkey_Curve
          another_P256_neq)
  have c: "DeriveECMR toy_env (bytes_of ''A128GCM'') [] [] exch_off_curve toy_pubkey 16
     = Inl ServerKeyNotOnCurve"
    using th[of exch_off_curve, THEN conjunct2, THEN conjunct2, THEN conjunct1,
        THEN spec, THEN spec, THEN spec,
        of ?t "\<lparr> Curve = curve_P256, X = 2, Y = 4 \<rparr>" "\<lparr> Curve = curve_P256, X = 2, Y = 5 \<rparr>"]
    by (simp add: toy_GenerateKey toy_xfrKey exch_off_curve_def toy_pubkey_Curve)
       (simp add: toy_env_def)
  have d: "exch_ok (ECMR_xfrKey toy_env ?t toy_pubkey)
     = Inr (\<lparr> Curve = curve_P256, X = 10, Y = 100 \<rparr>, \<lparr> Curve = curve_P256, X = 2, Y = 4 \<rparr>)"
    by (simp add: toy_xfrKey exch_ok_def)
  have e: "IsOnCurve toy_env curve_P256 2 4" by (simp add: toy_env_def)
  from a b b' c d e toy_DeriveECMR_ok show ?thesis by simp
qed

section \<open>Construction: the claims\<close>

text \<open>
  C8, as amended. \<open>NewRSAOAEPEncrypt\<close> and \<open>NewRSAOAEPDecrypt\<close> return an error for every
  algorithm other than \<open>RSA_OAEP\<close> and \<open>RSA_OAEP_256\<close>, and \<open>NewRSAPKCSEncrypt\<close> for every
  algorithm other than \<open>RSA1_5\<close>; for their own algorithms they return the object.
  \<open>NewAESCGM\<close> checks nothing: it returns an object for every algorithm.
\<close>

theorem constructors_validate:
  "(alg \<notin> {RSA_OAEP, RSA_OAEP_256} \<longrightarrow>
      NewRSAOAEPEncrypt alg pub = Inl (InvalidRSAOAEPEncryptAlgorithm alg) \<and>
      NewRSAOAEPDecrypt alg priv = Inl (InvalidRSAOAEPDecryptAlgorithm alg)) \<and>
   (alg \<in> {RSA_OAEP, RSA_OAEP_256} \<longrightarrow>
      NewRSAOAEPEncrypt alg pub
        = Inr \<lparr> oaep_enc_alg = alg, oaep_enc_pubkey = pub, oaep_enc_keyID = [] \<rparr> \<and>
      NewRSAOAEPDecrypt alg priv = Inr \<lparr> oaep_dec_alg = alg, oaep_dec_privkey = priv \<rparr>) \<and>
   (alg \<noteq> RSA1_5 \<longrightarrow> NewRSAPKCSEncrypt alg pub = Inl (InvalidRSAPKCSEncryptAlgorithm alg)) \<and>
   (alg = RSA1_5 \<longrightarrow>
      NewRSAPKCSEncrypt alg pub
        = Inr \<lparr> pkcs_enc_alg = alg, pkcs_enc_pubkey = pub, pkcs_enc_keyID = [] \<rparr>) \<and>
   NewAESCGM alg key = Inr \<lparr> aescgm_alg = alg, sharedkey = key, aescgm_keyID = [] \<rparr>"
  by (cases alg)
     (simp_all add: NewRSAOAEPEncrypt_def NewRSAOAEPDecrypt_def NewRSAPKCSEncrypt_def NewAESCGM_def)

theorem constructors_validate_witness:
  "NewRSAOAEPEncrypt A128KW (rsa_PublicKey.truncate key_2048) = Inl (InvalidRSAOAEPEncryptAlgorithm A128KW) \<and>
   NewRSAOAEPDecrypt A128KW key_2048 = Inl (InvalidRSAOAEPDecryptAlgorithm A128KW) \<and>
   NewRSAPKCSEncrypt A128KW (rsa_PublicKey.truncate key_2048) = Inl (InvalidRSAPKCSEncryptAlgorithm A128KW) \<and>
   NewRSAOAEPEncrypt RSA_OAEP_256 (rsa_PublicKey.truncate key_2048)
     = Inr \<lparr> oaep_enc_alg = RSA_OAEP_256, oaep_enc_pubkey = rsa_PublicKey.truncate key_2048,
             oaep_enc_keyID = [] \<rparr> \<and>
   NewRSAPKCSEncrypt RSA1_5 (rsa_PublicKey.truncate key_2048)
     = Inr \<lparr> pkcs_enc_alg = RSA1_5, pkcs_enc_pubkey = rsa_PublicKey.truncate key_2048,
             pkcs_enc_keyID = [] \<rparr>"
  using constructors_validate[of A128KW "rsa_PublicKey.truncate key_2048" key_2048 "[]"]
    constructors_validate[of RSA_OAEP_256 "rsa_PublicKey.truncate key_2048" key_2048 "[]"]
    constructors_validate[of RSA1_5 "rsa_PublicKey.truncate key_2048" key_2048 "[]"]
  by simp

text \<open>
  C8 as stated fails for the AES key-wrap object: built with \<open>RSA1_5\<close>, which is not a
  key-wrap algorithm, \<open>NewAESCGM\<close> returns an object and no error.
\<close>

theorem NewAESCGM_counterexample:
  "NewAESCGM RSA1_5 [1, 2, 3]
     = Inr \<lparr> aescgm_alg = RSA1_5, sharedkey = [1, 2, 3], aescgm_keyID = [] \<rparr>"
  by (simp add: NewAESCGM_def)

section \<open>The fixed-width coordinate codec: the claims\<close>


lemma curveSize_ceil: "curveSize crv = (BitSize crv + 7) div 8"
  unfolding curveSize_def Let_def by presburger

lemma foldl_SetBytes_zeros:
  "foldl (\<lambda>acc b. acc * 256 + unat b) 0 (replicate k (0 :: byte)) = 0"
  by (induction k) simp_all

lemma big_SetBytes_pad: "big_SetBytes (replicate k 0 @ bs) = big_SetBytes bs"
  by (simp add: big_SetBytes_def foldl_SetBytes_zeros)

lemma foldl_SetBytes_nat_Bytes:
  "foldl (\<lambda>acc b. acc * 256 + unat b) 0 (nat_Bytes n) = n"
proof (induction n rule: nat_Bytes.induct)
  case (1 n)
  show ?case
  proof (cases "n = 0")
    case True
    then show ?thesis by (simp add: nat_Bytes.simps)
  next
    case False
    have u: "unat (word_of_nat (n mod 256) :: byte) = n mod 256"
      by (simp add: unat_of_nat)
    have "foldl (\<lambda>acc b. acc * 256 + unat b) 0 (nat_Bytes n)
            = foldl (\<lambda>acc b. acc * 256 + unat b) 0 (nat_Bytes (n div 256)) * 256 + n mod 256"
      using False by (subst nat_Bytes.simps) (simp add: u)
    also have "\<dots> = n div 256 * 256 + n mod 256" using 1[OF False] by simp
    finally show ?thesis by simp
  qed
qed

lemma big_SetBytes_Bytes: "0 \<le> x \<Longrightarrow> big_SetBytes (big_Bytes x) = x"
  by (simp add: big_SetBytes_def big_Bytes_def foldl_SetBytes_nat_Bytes)

text \<open>
  C9. For a non-negative integer \<open>x\<close> whose big-endian bytes are at most
  \<open>curveSize crv\<close> many, the encoder returns a buffer of exactly \<open>curveSize crv\<close> bytes,
  which is \<open>\<lceil>BitSize / 8\<rceil>\<close>: the bytes of \<open>x\<close> after leading zeros; and decoding the
  buffer gives \<open>x\<close> back.
\<close>

theorem fixed_width_roundtrip:
  assumes "0 \<le> x" and "length (big_Bytes x) \<le> curveSize crv"
  shows "\<exists>buf. newFixedSizeBuffer (big_Bytes x) (curveSize crv) = Inr buf \<and>
           length buf = curveSize crv \<and>
           buf = replicate (curveSize crv - length (big_Bytes x)) 0 @ big_Bytes x \<and>
           big_SetBytes buf = x \<and>
           curveSize crv = (BitSize crv + 7) div 8"
  using assms
  by (simp add: newFixedSizeBuffer_def make_bytes_def big_SetBytes_pad big_SetBytes_Bytes
        curveSize_ceil)

lemma big_Bytes_65537: "big_Bytes 65537 = [1, 0, 1]"
  by (simp add: big_Bytes_def nat_Bytes.simps)

theorem fixed_width_roundtrip_witness:
  "newFixedSizeBuffer (big_Bytes 65537) (curveSize P256) = Inr (replicate 29 0 @ [1, 0, 1]) \<and>
   length (replicate 29 (0 :: byte) @ [1, 0, 1]) = 32 \<and>
   big_SetBytes (replicate 29 0 @ [1, 0, 1]) = 65537 \<and>
   curveSize P256 = 32"
proof -
  have c: "curveSize P256 = 32" by (simp add: curveSize_def P256_def)
  have "\<exists>buf. newFixedSizeBuffer (big_Bytes 65537) (curveSize P256) = Inr buf \<and>
           length buf = curveSize P256 \<and>
           buf = replicate (curveSize P256 - length (big_Bytes 65537)) 0 @ big_Bytes 65537 \<and>
           big_SetBytes buf = 65537 \<and>
           curveSize P256 = (BitSize P256 + 7) div 8"
    by (rule fixed_width_roundtrip) (simp_all add: big_Bytes_65537 c)
  then show ?thesis by (auto simp: big_Bytes_65537 c)
qed

section \<open>RSA PKCS1v15 decryption: the claims\<close>

lemma BitLen_bounds:
  "2 ^ k \<le> n \<Longrightarrow> n < 2 ^ Suc k \<Longrightarrow> BitLen n = Suc k"
proof (induction k arbitrary: n)
  case 0
  then have "n = 1" by simp
  then show ?case by (simp add: BitLen.simps[of "Suc 0"] BitLen.simps[of 0])
next
  case (Suc k)
  have "2 ^ k \<le> n div 2" "n div 2 < 2 ^ Suc k" using Suc.prems by simp_all
  then have "BitLen (n div 2) = Suc k" by (rule Suc.IH)
  moreover have "n \<noteq> 0"
  proof
    assume "n = 0"
    with Suc.prems(1) show False by simp
  qed
  ultimately show ?case by (subst BitLen.simps) simp
qed

lemma BitLen_key_2048: "BitLen (rsa_N key_2048) = 2048"
  using BitLen_bounds[of 2047 "2 ^ 2047 + 1"] by (simp add: key_2048_def)

lemma BitLen_key_2047: "BitLen (rsa_N key_2047) = 2047"
  using BitLen_bounds[of 2046 "2 ^ 2046 + 1"] by (simp add: key_2047_def)

lemma key_2048_pos: "0 < rsa_N key_2048"
  by (simp add: key_2048_def)

lemma length_Random_Generate:
  "Random_Generate rnd g = Inr bk \<Longrightarrow> length bk = random_keysize g"
  by (auto simp: Random_Generate_def split: option.splits)

text \<open>
  C10. When \<open>Decrypt\<close> of a decrypter built by \<open>NewRSAPKCS15Decrypt\<close> with key size
  \<open>ks\<close> returns a buffer and no error, the buffer has \<open>2 * ks\<close> bytes, whether the
  primitive wrote a session key into it or left the random bytes in it. (When the
  primitive panics, \<open>Decrypt\<close> recovers and returns neither a buffer nor an error; that is
  \<open>Inr None\<close> and not a case of this claim.)
\<close>

theorem RSAPKCS15Decrypt_buffer_length:
  "RSAPKCS15Decrypt_Decrypt prim rnd (NewRSAPKCS15Decrypt alg priv ks) enckey = Inr (Some cek)
     \<Longrightarrow> length cek = 2 * ks"
  by (auto simp: RSAPKCS15Decrypt_Decrypt_def NewRSAPKCS15Decrypt_def NewRandom_def Let_def
        dest!: length_Random_Generate
        split: if_splits sum.splits SessionKeyOutcome.splits)

lemma toy_Generate_32:
  "Random_Generate toy_rand (NewRandom 32) = Inr (map (\<lambda>i. word_of_nat (7 * i + 1)) [0..<32])"
  by (simp add: Random_Generate_def toy_rand_def NewRandom_def)

lemma big_SetBytes_zeros: "big_SetBytes (replicate k 0) = 0"
  using big_SetBytes_pad[of k "[]"] by (simp add: big_SetBytes_def)

lemma toy_Decrypt_fallback:
  "RSAPKCS15Decrypt_Decrypt out_of_range_fails toy_rand (NewRSAPKCS15Decrypt RSA1_5 key_2048 16)
     (replicate 256 0) = Inr (Some (map (\<lambda>i. word_of_nat (7 * i + 1)) [0..<32]))"
  unfolding RSAPKCS15Decrypt_Decrypt_def NewRSAPKCS15Decrypt_def Let_def
  by (simp add: BitLen_key_2048 toy_Generate_32 out_of_range_fails_def big_SetBytes_zeros
        key_2048_pos copy_bytes_def del: upt_Suc)

lemma toy_Decrypt_session_key:
  "RSAPKCS15Decrypt_Decrypt (session_key_of 0x42) toy_rand (NewRSAPKCS15Decrypt RSA1_5 key_2048 16)
     (replicate 256 0) = Inr (Some (replicate 32 0x42))"
  unfolding RSAPKCS15Decrypt_Decrypt_def NewRSAPKCS15Decrypt_def Let_def
  by (simp add: BitLen_key_2048 toy_Generate_32 session_key_of_def copy_bytes_def del: upt_Suc)

theorem RSAPKCS15Decrypt_buffer_length_witness:
  "RSAPKCS15Decrypt_Decrypt out_of_range_fails toy_rand (NewRSAPKCS15Decrypt RSA1_5 key_2048 16)
     (replicate 256 0) = Inr (Some (map (\<lambda>i. word_of_nat (7 * i + 1)) [0..<32])) \<and>
   length (map (\<lambda>i. word_of_nat (7 * i + 1) :: byte) [0..<32]) = 2 * 16 \<and>
   RSAPKCS15Decrypt_Decrypt (session_key_of 0x42) toy_rand (NewRSAPKCS15Decrypt RSA1_5 key_2048 16)
     (replicate 256 0) = Inr (Some (replicate 32 0x42)) \<and>
   length (replicate 32 (0x42 :: byte)) = 2 * 16"
  using RSAPKCS15Decrypt_buffer_length[OF toy_Decrypt_fallback]
    RSAPKCS15Decrypt_buffer_length[OF toy_Decrypt_session_key]
    toy_Decrypt_fallback toy_Decrypt_session_key
  by simp

lemma foldl_SetBytes_ff:
  "foldl (\<lambda>acc b. acc * 256 + unat b) 0 (replicate k (0xFF :: byte)) = 256 ^ k - 1"
proof (induction k)
  case 0
  then show ?case by simp
next
  case (Suc k)
  obtain p :: nat where p: "256 ^ k = Suc p"
    by (metis not0_implies_Suc power_not_zero zero_neq_numeral)
  have "foldl (\<lambda>acc b. acc * 256 + unat b) 0 (replicate (Suc k) (0xFF :: byte))
          = foldl (\<lambda>acc b. acc * 256 + unat b) 0 (replicate k (0xFF :: byte) @ [0xFF])"
    by (simp only: replicate_append_same replicate_Suc)
  also have "\<dots> = (256 ^ k - 1) * 256 + 255" by (simp add: Suc.IH)
  also have "\<dots> = 256 ^ Suc k - 1" by (simp add: p)
  finally show ?case .
qed

lemma big_SetBytes_ff_256: "big_SetBytes (replicate 256 0xFF) = 256 ^ 256 - 1"
  by (simp only: big_SetBytes_def foldl_SetBytes_ff) simp

lemma key_2048_le_ff: "int (rsa_N key_2048) \<le> big_SetBytes (replicate 256 0xFF)"
  by (simp add: big_SetBytes_ff_256 key_2048_def)

lemma RSAPKCS15Decrypt_primitive_error:
  assumes "length enckey = BitLen (rsa_N (pkcs15_privkey d)) div 8"
    and "Random_Generate rnd (pkcs15_generator d) = Inr bk"
    and "prim (pkcs15_privkey d) enckey bk = ReturnsError"
  shows "RSAPKCS15Decrypt_Decrypt prim rnd d enckey = Inl DecryptPKCS1v15Failed"
  using assms by (simp add: RSAPKCS15Decrypt_Decrypt_def)

text \<open>
  C2: the code does not do what the claim says. For a ciphertext of the expected length
  on which the primitive returns an error (here 256 bytes \<open>0xFF\<close> under a 2048-bit key: the
  integer is not below the modulus), \<open>Decrypt\<close> returns the error
  \<^verbatim>\<open>failed to decrypt via PKCS1v15\<close> and not the random buffer; and when the primitive
  panics, \<open>Decrypt\<close> returns neither the random buffer nor an error.
\<close>

theorem RSAPKCS15Decrypt_error_exposed:
  "length (replicate 256 (0xFF :: byte)) = BitLen (rsa_N key_2048) div 8 \<and>
   RSAPKCS15Decrypt_Decrypt out_of_range_fails toy_rand (NewRSAPKCS15Decrypt RSA1_5 key_2048 16)
     (replicate 256 0xFF) = Inl DecryptPKCS1v15Failed \<and>
   RSAPKCS15Decrypt_Decrypt always_panics toy_rand (NewRSAPKCS15Decrypt RSA1_5 key_2048 16)
     (replicate 256 0xFF) = Inr None"
  unfolding RSAPKCS15Decrypt_Decrypt_def NewRSAPKCS15Decrypt_def Let_def
  by (simp add: BitLen_key_2048 toy_Generate_32 out_of_range_fails_def key_2048_le_ff
        always_panics_def del: upt_Suc)

lemma RSAPKCS15Decrypt_length_check:
  "length enckey \<noteq> BitLen (rsa_N (pkcs15_privkey d)) div 8 \<Longrightarrow>
   RSAPKCS15Decrypt_Decrypt prim rnd d enckey
     = Inl (InputSizeIncorrect (BitLen (rsa_N (pkcs15_privkey d)) div 8) (length enckey))"
  by (auto simp: RSAPKCS15Decrypt_Decrypt_def Let_def)

text \<open>
  C6: the length that \<open>Decrypt\<close> expects is \<open>BitLen N div 8\<close>, rounded down. A wrong
  length is rejected before the primitive is called, whatever the primitive is; but for a
  modulus of 2047 bits the expected length is 255 and not \<open>\<lceil>2047 / 8\<rceil> = 256\<close>: a
  ciphertext of 255 bytes reaches the primitive, and one of 256 bytes is rejected.
\<close>

theorem RSAPKCS15Decrypt_expected_length_rounds_down:
  "BitLen (rsa_N key_2047) = 2047 \<and> (2047 + 7) div 8 = (256 :: nat) \<and>
   RSAPKCS15Decrypt_Decrypt (session_key_of 0x42) toy_rand (NewRSAPKCS15Decrypt RSA1_5 key_2047 16)
     (replicate 255 0) = Inr (Some (replicate 32 0x42)) \<and>
   RSAPKCS15Decrypt_Decrypt (session_key_of 0x42) toy_rand (NewRSAPKCS15Decrypt RSA1_5 key_2047 16)
     (replicate 256 0) = Inl (InputSizeIncorrect 255 256)"
  unfolding RSAPKCS15Decrypt_Decrypt_def NewRSAPKCS15Decrypt_def Let_def
  by (simp add: BitLen_key_2047 toy_Generate_32 session_key_of_def copy_bytes_def del: upt_Suc)

end
